theory Spec2Isabelle
  imports Complex_Main "HOL-Library.Word"
begin

section \<open>The hex dumper \<open>ch\<close> (src/index.js)\<close>

text \<open>
  A shallow embedding of \<^verbatim>\<open>src/index.js\<close>: the class \<^verbatim>\<open>HexaFile\<close>, the function
  \<^verbatim>\<open>validateParams\<close> and the top-level driver.

  Numbers. JavaScript numbers are doubles; the model keeps the integer-valued ones as
  \<open>int\<close> and writes \<open>NaN\<close> as \<open>None\<close> where the program can really produce it
  (\<^verbatim>\<open>parseInt\<close>, \<^verbatim>\<open>pos % spacing\<close>). A double holds every integer up to \<open>2^53\<close>
  exactly, and a file position is at most \<open>2^53 - 1\<close> (\<open>MAX_SAFE_INTEGER\<close> below): on
  these the program's arithmetic is the integers'. \<^verbatim>\<open>parseInt\<close> rounds a longer
  number to a double, and the model rounds with it. Strings are \<open>string\<close>; a character is one
  code unit below 256. The value \<^verbatim>\<open>undefined\<close> read from a buffer outside its range
  is \<open>None\<close>.
\<close>

subsection \<open>Constants\<close>

definition LINE_WIDTH :: int where
  "LINE_WIDTH = 192 div 8"

definition BUFFER_LENGTH :: int where
  "BUFFER_LENGTH = 512 * 1024"

definition MAX_32BIT :: int where
  "MAX_32BIT = 0xffffffff"


subsection \<open>The JavaScript built-ins the program calls\<close>

type_synonym byte = "8 word"

text \<open>\<^verbatim>\<open>Number.prototype.toString(16)\<close> on an integer: lowercase digits, a leading
  minus sign for a negative number.\<close>

definition hexDigit :: "nat \<Rightarrow> char" where
  "hexDigit d = ''0123456789abcdef'' ! (d mod 16)"

function natToString16 :: "nat \<Rightarrow> string" where
  "natToString16 n =
     (if n < 16 then [hexDigit n] else natToString16 (n div 16) @ [hexDigit (n mod 16)])"
  by pat_completeness auto
termination
  by (relation "measure (\<lambda>n. n)") auto

declare natToString16.simps [simp del]

definition toString16 :: "int \<Rightarrow> string" where
  "toString16 n =
     (if n < 0 then CHR ''-'' # natToString16 (nat (- n)) else natToString16 (nat n))"

text \<open>\<^verbatim>\<open>s.substr(-k)\<close>: the last \<open>k\<close> characters of \<open>s\<close> (all of \<open>s\<close> when it is
  shorter).\<close>

definition substr_last :: "nat \<Rightarrow> string \<Rightarrow> string" where
  "substr_last k s = drop (length s - k) s"

text \<open>\<^verbatim>\<open>String.fromCharCode(code)\<close> for a code below 256.\<close>

definition fromCharCode :: "int \<Rightarrow> string" where
  "fromCharCode code = [char_of code]"

text \<open>\<^verbatim>\<open>parseInt(s)\<close> without a radix: leading white space is skipped, then an optional
  sign, then an optional \<^verbatim>\<open>0x\<close> prefix (radix 16), then the longest run of digits
  of the radix; \<open>NaN\<close> (here \<open>None\<close>) when that run is empty. \<open>digitsValue\<close> is the
  integer that a run of digits denotes.\<close>

definition isWhiteSpace :: "char \<Rightarrow> bool" where
  "isWhiteSpace c =
     (c \<in> set [CHR '' '', CHR 0x09, CHR 0x0A, CHR 0x0B, CHR 0x0C, CHR 0x0D, CHR 0xA0])"

definition digitValue :: "char \<Rightarrow> nat option" where
  "digitValue c =
     (let k = (of_char c :: nat) in
      if 48 \<le> k \<and> k \<le> 57 then Some (k - 48)
      else if 97 \<le> k \<and> k \<le> 122 then Some (k - 87)
      else if 65 \<le> k \<and> k \<le> 90 then Some (k - 55)
      else None)"

definition isDigitOf :: "nat \<Rightarrow> char \<Rightarrow> bool" where
  "isDigitOf radix c = (case digitValue c of None \<Rightarrow> False | Some d \<Rightarrow> d < radix)"

definition digitsValue :: "nat \<Rightarrow> string \<Rightarrow> nat" where
  "digitsValue radix ds =
     foldl (\<lambda>acc c. acc * radix + (case digitValue c of None \<Rightarrow> 0 | Some d \<Rightarrow> d)) 0 ds"

text \<open>The result of \<^verbatim>\<open>parseInt\<close> is a double: the integer that the digits denote,
  rounded to 53 significant bits, to the nearest and to the even one of two nearest
  (\<open>toDouble\<close>); an integer below \<open>2^53\<close> is kept as it is. What rounds to \<open>2^1024\<close> or
  more is \<^verbatim>\<open>Infinity\<close>, written \<open>2^1024\<close> here: the program only compares such a
  number with a file size or divides a position below 24 by it, and does the same
  with \<^verbatim>\<open>Infinity\<close> as with any number that large.\<close>

function bitLength :: "nat \<Rightarrow> nat" where
  "bitLength n = (if n = 0 then 0 else Suc (bitLength (n div 2)))"
  by pat_completeness auto
termination
  by (relation "measure (\<lambda>n. n)") auto

declare bitLength.simps [simp del]

definition toDouble :: "nat \<Rightarrow> nat" where
  "toDouble n =
     (let k = bitLength n
      in if k \<le> 53 then n
         else
           (let e = k - 53;
                q = n div 2 ^ e;
                r = n mod 2 ^ e;
                half = 2 ^ (e - 1);
                q1 = (if half < r \<or> (r = half \<and> odd q) then q + 1 else q);
                m = q1 * 2 ^ e
            in if 2 ^ 1024 \<le> m then 2 ^ 1024 else m))"

definition parseInt :: "string \<Rightarrow> int option" where
  "parseInt s =
     (let s1 = dropWhile isWhiteSpace s;
          negative = (take 1 s1 = ''-'');
          s2 = (if take 1 s1 = ''-'' \<or> take 1 s1 = ''+'' then drop 1 s1 else s1);
          hex = (take 2 s2 = ''0x'' \<or> take 2 s2 = ''0X'');
          radix = (if hex then 16 else 10);
          s3 = (if hex then drop 2 s2 else s2);
          ds = takeWhile (isDigitOf radix) s3
      in if ds = [] then None
         else Some ((if negative then - 1 else 1) * int (toDouble (digitsValue radix ds))))"

text \<open>\<^verbatim>\<open>str.match(re)\<close> for a regular expression that is an alternation of literal
  strings, without anchors: some alternative occurs somewhere in \<open>str\<close>.\<close>

fun occursIn :: "string \<Rightarrow> string \<Rightarrow> bool" where
  "occursIn p [] = (p = [])"
| "occursIn p (c # cs) = (take (length p) (c # cs) = p \<or> occursIn p cs)"

definition matchAlternatives :: "string list \<Rightarrow> string \<Rightarrow> bool" where
  "matchAlternatives alts str = list_ex (\<lambda>p. occursIn p str) alts"

text \<open>\<^verbatim>\<open>x % y\<close> on numbers (rationals here; \<open>None\<close> is \<open>NaN\<close>): the remainder has the
  sign of \<open>x\<close>, and a zero divisor gives \<open>NaN\<close>. \<^verbatim>\<open>!v\<close> holds of \<open>NaN\<close> and of zero.\<close>

definition js_trunc :: "rat \<Rightarrow> int" where
  "js_trunc q = (if 0 \<le> q then \<lfloor>q\<rfloor> else \<lceil>q\<rceil>)"

definition js_mod :: "rat option \<Rightarrow> rat option \<Rightarrow> rat option" where
  "js_mod x y =
     (case x of None \<Rightarrow> None
      | Some a \<Rightarrow>
          (case y of None \<Rightarrow> None
           | Some b \<Rightarrow> if b = 0 then None else Some (a - b * of_int (js_trunc (a / b)))))"

definition js_not :: "rat option \<Rightarrow> bool" where
  "js_not v = (case v of None \<Rightarrow> True | Some a \<Rightarrow> a = 0)"

subsection \<open>Files, descriptors and the console\<close>

datatype node = Directory | RegularFile "byte list"

text \<open>The result of \<^verbatim>\<open>fs.statSync\<close>; \<open>st_size\<close> is its field \<^verbatim>\<open>size\<close>.\<close>

record stats =
  isDirectory :: bool
  st_size :: int

text \<open>What the program sees of its environment: the files by path, the table of open
  descriptors with the contents each one reads, the descriptor the system hands out
  next, the lines written by \<^verbatim>\<open>console.log\<close>, and the platform test
  \<^verbatim>\<open>process.platform == 'win32'\<close>. File contents do not change during a run and reads
  do not fail for a reason of the device.\<close>

record world =
  files :: "string \<Rightarrow> node option"
  fds :: "nat \<Rightarrow> byte list option"
  nextFd :: nat
  console :: "string list"
  isWindows :: bool

datatype error =
  Thrown string
  | TypeError
  | RangeError
  | EBADF
  | EINVAL
  | ENOENT

definition console_log :: "string \<Rightarrow> world \<Rightarrow> world" where
  "console_log line w = w\<lparr>console := console w @ [line]\<rparr>"

text \<open>\<^verbatim>\<open>fs.statSync(path)\<close>. The size reported for a directory plays no part: the
  program throws on a directory before it reads the size.\<close>

definition statSync :: "world \<Rightarrow> string \<Rightarrow> error + stats" where
  "statSync w p =
     (case files w p of
        None \<Rightarrow> Inl ENOENT
      | Some Directory \<Rightarrow> Inr \<lparr>isDirectory = True, st_size = 0\<rparr>
      | Some (RegularFile content) \<Rightarrow> Inr \<lparr>isDirectory = False, st_size = int (length content)\<rparr>)"

text \<open>\<^verbatim>\<open>fs.openSync(path, 'r')\<close>: a new descriptor on the file's contents.\<close>

definition openSync :: "world \<Rightarrow> string \<Rightarrow> (error + nat) \<times> world" where
  "openSync w p =
     (case files w p of
        Some (RegularFile content) \<Rightarrow>
          (Inr (nextFd w), w\<lparr>fds := (fds w)(nextFd w \<mapsto> content), nextFd := Suc (nextFd w)\<rparr>)
      | _ \<Rightarrow> (Inl ENOENT, w))"

text \<open>\<^verbatim>\<open>fs.closeSync(fd)\<close>: closing a descriptor that is not open is an error.\<close>

definition closeSync :: "world \<Rightarrow> nat \<Rightarrow> (error + unit) \<times> world" where
  "closeSync w h =
     (case fds w h of
        None \<Rightarrow> (Inl EBADF, w)
      | Some _ \<Rightarrow> (Inr (), w\<lparr>fds := (fds w)(h := None)\<rparr>))"

text \<open>\<^verbatim>\<open>fs.readSync(fd, buffer, 0, length, position)\<close>: copies up to \<open>length\<close> bytes of
  the file, from \<open>position\<close> on, to the front of the buffer and leaves the rest of the
  buffer as it was. The result is the buffer after the call. A missing descriptor or
  buffer is a type error. A position outside \<open>0 .. MAX_SAFE_INTEGER\<close> is outside what the
  model covers: a negative one is reported as \<open>EINVAL\<close>, a larger one is read like any
  other.\<close>

definition readSync ::
  "world \<Rightarrow> nat option \<Rightarrow> byte list option \<Rightarrow> int \<Rightarrow> int \<Rightarrow> error + byte list" where
  "readSync w fdo bufo len position =
     (case fdo of
        None \<Rightarrow> Inl TypeError
      | Some h \<Rightarrow>
          (case bufo of
             None \<Rightarrow> Inl TypeError
           | Some buf \<Rightarrow>
               (case fds w h of
                  None \<Rightarrow> Inl EBADF
                | Some content \<Rightarrow>
                    if int (length buf) < len then Inl RangeError
                    else if position < 0 then Inl EINVAL
                    else
                      (let chunk = take (nat len) (drop (nat position) content)
                       in Inr (chunk @ drop (length chunk) buf)))))"

subsection \<open>The class \<open>HexaFile\<close>\<close>

text \<open>The fields of the object. \<open>buffer\<close> is \<^verbatim>\<open>null\<close> and \<open>fstat\<close>, \<open>fd\<close> are
  \<^verbatim>\<open>undefined\<close> (all three \<open>None\<close>) until \<^verbatim>\<open>openFile\<close> sets them. \<open>blockSize\<close> is
  \<open>None\<close> when \<^verbatim>\<open>parseInt\<close> gave \<open>NaN\<close>. \<open>maxLine\<close> and \<open>currentLine\<close> are first
  assigned by \<^verbatim>\<open>print\<close>, the only caller of \<^verbatim>\<open>printLine\<close>; the constructor of the
  model starts them at 0.\<close>

record HexaFile =
  err :: string
  path :: string
  currentOffset :: int
  buffer :: "byte list option"
  blockSize :: "int option"
  bufferStart :: int
  showOffset :: bool
  showHexa :: bool
  fstat :: "stats option"
  fd :: "nat option"
  maxLine :: int
  currentLine :: int

text \<open>A method runs on the object and the world and returns a value or the exception
  it threw, together with the object and the world as it left them.\<close>

type_synonym 'a result = "(error + 'a) \<times> HexaFile \<times> world"

definition andThen ::
  "'a result \<Rightarrow> ('a \<Rightarrow> HexaFile \<Rightarrow> world \<Rightarrow> 'b result) \<Rightarrow> 'b result" where
  "andThen r f =
     (case r of (Inl e, this, w) \<Rightarrow> (Inl e, this, w) | (Inr a, this, w) \<Rightarrow> f a this w)"

text \<open>The constructor. \<^verbatim>\<open>parseInt(startOffset)\<close> must be a number: the model has no
  object whose offset is \<open>NaN\<close>, and \<^verbatim>\<open>validateParams\<close> lets the driver construct
  none.\<close>

definition new_HexaFile ::
  "string \<Rightarrow> string \<Rightarrow> string \<Rightarrow> bool \<Rightarrow> bool \<Rightarrow> HexaFile option" where
  "new_HexaFile p blockSizeArg startOffsetArg hexaArg offsetArg =
     (case parseInt startOffsetArg of
        None \<Rightarrow> None
      | Some start \<Rightarrow>
          Some \<lparr>err = '''', path = p, currentOffset = start, buffer = None,
                blockSize = parseInt blockSizeArg, bufferStart = start,
                showOffset = offsetArg, showHexa = hexaArg,
                fstat = None, fd = None, maxLine = 0, currentLine = 0\<rparr>)"

definition statFile :: "HexaFile \<Rightarrow> world \<Rightarrow> unit result" where
  "statFile this w =
     (case statSync w (path this) of
        Inl e \<Rightarrow> (Inl (Thrown (''Error: cannot open file '' @ path this)), this, w)
      | Inr st \<Rightarrow>
          (let this1 = this\<lparr>fstat := Some st\<rparr>
           in if isDirectory st then (Inl (Thrown ''Error: ch only works on files''), this1, w)
              else if st_size st = 0 then (Inl (Thrown ''Empty file''), this1, w)
              else (Inr (), this1, w)))"

definition checkStartOffset :: "HexaFile \<Rightarrow> world \<Rightarrow> unit result" where
  "checkStartOffset this w =
     (case fstat this of
        None \<Rightarrow> (Inl TypeError, this, w)
      | Some st \<Rightarrow>
          if currentOffset this \<ge> st_size st then
            (Inr (),
             this\<lparr>currentOffset := 0, bufferStart := 0\<rparr>,
             console_log
               ''Warning: specified start offset is out of bounds, using default start offset of 0''
               w)
          else (Inr (), this, w))"

definition readChunk :: "int \<Rightarrow> HexaFile \<Rightarrow> world \<Rightarrow> unit result" where
  "readChunk offset this w =
     (case readSync w (fd this) (buffer this) BUFFER_LENGTH offset of
        Inl e \<Rightarrow> (Inl e, this, w)
      | Inr buf \<Rightarrow> (Inr (), this\<lparr>buffer := Some buf\<rparr>, w))"

definition openFile :: "HexaFile \<Rightarrow> world \<Rightarrow> unit result" where
  "openFile this w =
     andThen (statFile this w) (\<lambda>_ this1 w1.
     andThen (checkStartOffset this1 w1) (\<lambda>_ this2 w2.
       (case openSync w2 (path this2) of
          (Inl e, w3) \<Rightarrow> (Inl e, this2, w3)
        | (Inr h, w3) \<Rightarrow>
            (let this3 = this2\<lparr>fd := Some h\<rparr>;
                 this4 = this3\<lparr>buffer := Some (replicate (nat BUFFER_LENGTH) 0)\<rparr>
             in readChunk (currentOffset this4) this4 w3))))"

text \<open>\<^verbatim>\<open>cleanup\<close>: \<^verbatim>\<open>if (this.fd)\<close> is false for \<^verbatim>\<open>undefined\<close> and for the
  descriptor 0. The field \<open>fd\<close> is left as it is.\<close>

definition cleanup :: "HexaFile \<Rightarrow> world \<Rightarrow> unit result" where
  "cleanup this w =
     (case fd this of
        None \<Rightarrow> (Inr (), this, w)
      | Some h \<Rightarrow>
          if h \<noteq> 0 then (case closeSync w h of (r, w1) \<Rightarrow> (r, this, w1))
          else (Inr (), this, w))"

subsection \<open>Reading a byte through the buffer\<close>

definition checkBuffer :: "int \<Rightarrow> HexaFile \<Rightarrow> world \<Rightarrow> unit result" where
  "checkBuffer offset this w =
     (if offset \<ge> BUFFER_LENGTH + bufferStart this then
        readChunk offset (this\<lparr>bufferStart := offset\<rparr>) w
      else (Inr (), this, w))"

text \<open>\<^verbatim>\<open>buffer[i]\<close>: the byte as a number, \<^verbatim>\<open>undefined\<close> outside the buffer.\<close>

definition bufferAt :: "byte list \<Rightarrow> int \<Rightarrow> int option" where
  "bufferAt buf i = (if 0 \<le> i \<and> i < int (length buf) then Some (uint (buf ! nat i)) else None)"

definition readByteFromFile :: "int \<Rightarrow> HexaFile \<Rightarrow> world \<Rightarrow> int option result" where
  "readByteFromFile offset this w =
     (case fstat this of
        None \<Rightarrow> (Inl TypeError, this, w)
      | Some st \<Rightarrow>
          if offset < st_size st then
            andThen (checkBuffer offset this w) (\<lambda>_ this1 w1.
              (case buffer this1 of
                 None \<Rightarrow> (Inl TypeError, this1, w1)
               | Some buf \<Rightarrow> (Inr (bufferAt buf (offset - bufferStart this1)), this1, w1)))
          else (Inr (Some (- 1)), this, w))"

subsection \<open>Formatting\<close>

definition convertOffsetTotHexa :: "int \<Rightarrow> string" where
  "convertOffsetTotHexa number =
     (if number \<le> MAX_32BIT then substr_last 8 (''00000000'' @ toString16 number)
      else substr_last 16 (''0000000000000000'' @ toString16 number))"

definition convertByteTotHexa :: "int \<Rightarrow> string" where
  "convertByteTotHexa number = substr_last 2 (''00'' @ toString16 number)"

definition getOffset :: "HexaFile \<Rightarrow> string" where
  "getOffset this = convertOffsetTotHexa (currentOffset this)"

text \<open>\<^verbatim>\<open>byte > -1\<close> is false of \<^verbatim>\<open>undefined\<close>.\<close>

definition getByteHexa :: "int \<Rightarrow> HexaFile \<Rightarrow> world \<Rightarrow> string result" where
  "getByteHexa offset this w =
     andThen (readByteFromFile offset this w) (\<lambda>byte this1 w1.
       (Inr (case byte of
               None \<Rightarrow> ''..''
             | Some b \<Rightarrow> if b > - 1 then convertByteTotHexa b else ''..''),
        this1, w1))"

text \<open>Every comparison of the condition is false of \<^verbatim>\<open>undefined\<close>.\<close>

definition getAscii :: "int \<Rightarrow> HexaFile \<Rightarrow> world \<Rightarrow> string result" where
  "getAscii offset this w =
     andThen (readByteFromFile offset this w) (\<lambda>code this1 w1.
       (Inr (case code of
               None \<Rightarrow> ''.''
             | Some c \<Rightarrow>
                 if ((\<not> isWindows w1 \<and> c > 160) \<or> (c \<ge> 32 \<and> c < 127)) \<and> c \<noteq> 0xAD
                 then fromCharCode c else ''.''),
        this1, w1))"

subsection \<open>One line\<close>

text \<open>The loop of \<^verbatim>\<open>generateLine\<close>, with its local variables \<open>pos\<close>, \<open>hexa\<close> and
  \<open>ascii\<close> as arguments and \<open>spacing\<close>, computed once before the loop, as a
  parameter.\<close>

function generateLine_loop ::
  "rat option \<Rightarrow> int \<Rightarrow> string \<Rightarrow> string \<Rightarrow> HexaFile \<Rightarrow> world \<Rightarrow> (string \<times> string) result" where
  "generateLine_loop spacing pos hexa ascii this w =
     (if pos < LINE_WIDTH then
        (case getByteHexa (currentOffset this + pos) this w of
           (Inl e, this1, w1) \<Rightarrow> (Inl e, this1, w1)
         | (Inr h, this1, w1) \<Rightarrow>
             (case getAscii (currentOffset this1 + pos) this1 w1 of
                (Inl e, this2, w2) \<Rightarrow> (Inl e, this2, w2)
              | (Inr a, this2, w2) \<Rightarrow>
                  (let hexa1 = hexa @ h;
                       ascii1 = ascii @ a;
                       pos1 = pos + 1;
                       hexa2 = (if pos1 \<noteq> 0 \<and> js_not (js_mod (Some (of_int pos1)) spacing)
                                then hexa1 @ ''  '' else hexa1)
                   in generateLine_loop spacing pos1 hexa2 ascii1 this2 w2)))
      else (Inr (hexa, ascii), this, w))"
  by pat_completeness auto
termination
  by (relation "measure (\<lambda>(spacing, pos, hexa, ascii, this, w). nat (LINE_WIDTH - pos))") auto

declare generateLine_loop.simps [simp del]

text \<open>\<^verbatim>\<open>this.blockSize / 8\<close>.\<close>

definition spacingOf :: "HexaFile \<Rightarrow> rat option" where
  "spacingOf this = (case blockSize this of None \<Rightarrow> None | Some b \<Rightarrow> Some (of_int b / 8))"

definition generateLine :: "HexaFile \<Rightarrow> world \<Rightarrow> string result" where
  "generateLine this w =
     andThen (generateLine_loop (spacingOf this) 0 [] [] this w) (\<lambda>(hexa, ascii) this1 w1.
       (Inr (if showHexa this1 then hexa @ ascii else ascii), this1, w1))"

subsection \<open>What reading leaves unchanged\<close>

text \<open>Reading changes the window (\<open>bufferStart\<close> and \<open>buffer\<close>) and nothing else of the
  object, and it leaves the world as it is.\<close>

definition onlyWindow :: "HexaFile \<Rightarrow> HexaFile \<Rightarrow> bool" where
  "onlyWindow this this' = (this' = this\<lparr>bufferStart := bufferStart this', buffer := buffer this'\<rparr>)"

lemma onlyWindow_refl: "onlyWindow this this"
  by (simp add: onlyWindow_def)

lemma onlyWindow_trans: "onlyWindow a b \<Longrightarrow> onlyWindow b c \<Longrightarrow> onlyWindow a c"
  unfolding onlyWindow_def
  by (cases a, cases b, cases c) simp

lemma onlyWindow_fields:
  assumes "onlyWindow this this'"
  shows "currentOffset this' = currentOffset this" "maxLine this' = maxLine this"
    "currentLine this' = currentLine this" "fstat this' = fstat this" "fd this' = fd this"
    "blockSize this' = blockSize this" "showHexa this' = showHexa this"
    "showOffset this' = showOffset this" "path this' = path this"
  using assms unfolding onlyWindow_def
  by (cases this, cases this', simp)+

lemma checkBuffer_frame:
  "checkBuffer offset this w = (r, this', w') \<Longrightarrow> onlyWindow this this' \<and> w' = w"
  by (auto simp: checkBuffer_def readChunk_def onlyWindow_def split: sum.splits if_splits)

lemma readByteFromFile_frame:
  "readByteFromFile offset this w = (r, this', w') \<Longrightarrow> onlyWindow this this' \<and> w' = w"
  by (auto simp: readByteFromFile_def andThen_def onlyWindow_refl
      split: option.splits if_splits prod.splits sum.splits dest: checkBuffer_frame)

lemma getByteHexa_frame:
  "getByteHexa offset this w = (r, this', w') \<Longrightarrow> onlyWindow this this' \<and> w' = w"
  by (auto simp: getByteHexa_def andThen_def
      split: prod.splits sum.splits dest: readByteFromFile_frame)

lemma getAscii_frame:
  "getAscii offset this w = (r, this', w') \<Longrightarrow> onlyWindow this this' \<and> w' = w"
  by (auto simp: getAscii_def andThen_def
      split: prod.splits sum.splits dest: readByteFromFile_frame)

lemma generateLine_loop_frame:
  "generateLine_loop spacing pos hexa ascii this w = (r, this', w') \<Longrightarrow> onlyWindow this this' \<and> w' = w"
proof (induction spacing pos hexa ascii this w rule: generateLine_loop.induct)
  case (1 spacing pos hexa ascii this w)
  show ?case
  proof (cases "pos < LINE_WIDTH")
    case False
    with "1.prems" show ?thesis
      by (simp add: generateLine_loop.simps [of spacing pos] onlyWindow_refl)
  next
    case True
    obtain rh this1 w1 where h: "getByteHexa (currentOffset this + pos) this w = (rh, this1, w1)"
      by (metis prod_cases3)
    obtain ra this2 w2 where a: "getAscii (currentOffset this1 + pos) this1 w1 = (ra, this2, w2)"
      by (metis prod_cases3)
    from getByteHexa_frame [OF h] have f1: "onlyWindow this this1" "w1 = w" by simp_all
    from getAscii_frame [OF a] have f2: "onlyWindow this1 this2" "w2 = w1" by simp_all
    show ?thesis
    proof (cases rh)
      case (Inl e)
      with "1.prems" True h f1 show ?thesis
        by (simp add: generateLine_loop.simps [of spacing pos])
    next
      case (Inr hx)
      note rh = this
      show ?thesis
      proof (cases ra)
        case (Inl e)
        with "1.prems" True h a rh f1 f2 show ?thesis
          by (auto simp: generateLine_loop.simps [of spacing pos] intro: onlyWindow_trans)
      next
        case (Inr ax)
        from "1.prems" True h a rh Inr
        have "generateLine_loop spacing (pos + 1)
               (if pos + 1 \<noteq> 0 \<and> js_not (js_mod (Some (of_int (pos + 1))) spacing)
                then (hexa @ hx) @ ''  '' else hexa @ hx) (ascii @ ax) this2 w2 = (r, this', w')"
          by (simp add: generateLine_loop.simps [of spacing pos] Let_def)
        from "1.IH" [OF True h [symmetric] _ _ a [symmetric] _ _ refl refl refl refl this] rh Inr
        have "onlyWindow this2 this' \<and> w' = w2" by simp
        with f1 f2 show ?thesis by (auto intro: onlyWindow_trans)
      qed
    qed
  qed
qed

lemma generateLine_frame:
  "generateLine this w = (r, this', w') \<Longrightarrow> onlyWindow this this' \<and> w' = w"
  by (auto simp: generateLine_def andThen_def
      split: prod.splits sum.splits dest: generateLine_loop_frame)

subsection \<open>The dump\<close>

text \<open>One call of \<^verbatim>\<open>printLine\<close>. The value returned says whether the call ended with
  \<^verbatim>\<open>setImmediate(() => { this.printLine() })\<close>, that is, whether another call is
  pending.\<close>

definition printLine :: "HexaFile \<Rightarrow> world \<Rightarrow> bool result" where
  "printLine this w =
     (let line = (if showOffset this then getOffset this @ ''   '' else [])
      in andThen (generateLine this w) (\<lambda>g this1 w1.
           (let line1 = line @ g;
                this2 = this1\<lparr>currentOffset := currentOffset this1 + LINE_WIDTH\<rparr>;
                w2 = console_log line1 w1;
                this3 = this2\<lparr>currentLine := currentLine this2 + 1\<rparr>
            in (Inr (currentLine this3 < maxLine this3), this3, w2))))"

text \<open>\<^verbatim>\<open>Math.ceil(this.fstat.size / LINE_WIDTH)\<close>, in exact arithmetic.\<close>

definition print :: "HexaFile \<Rightarrow> world \<Rightarrow> bool result" where
  "print this w =
     (case fstat this of
        None \<Rightarrow> (Inl TypeError, this, w)
      | Some st \<Rightarrow>
          (let this1 = this\<lparr>maxLine := \<lceil>(of_int (st_size st) :: rat) / of_int LINE_WIDTH\<rceil>\<rparr>;
               this2 = this1\<lparr>currentLine := 0\<rparr>
           in printLine this2 w))"

lemma printLine_step:
  assumes "printLine this w = (Inr again, this', w')"
  shows "currentLine this' = currentLine this + 1" "maxLine this' = maxLine this"
    "currentOffset this' = currentOffset this + LINE_WIDTH"
    "again = (currentLine this' < maxLine this')"
proof -
  from assms obtain g this1 where g: "generateLine this w = (Inr g, this1, w)"
    and this': "this' = this1\<lparr>currentOffset := currentOffset this1 + LINE_WIDTH,
                              currentLine := currentLine this1 + 1\<rparr>"
    and again: "again = (currentLine this1 + 1 < maxLine this1)"
    by (auto simp: printLine_def andThen_def Let_def
        split: prod.splits sum.splits dest: generateLine_frame)
  from generateLine_frame [OF g] have "onlyWindow this this1" by simp
  note f = onlyWindow_fields [OF this]
  show "currentLine this' = currentLine this + 1" by (simp add: this' f)
  show "maxLine this' = maxLine this" by (simp add: this' f)
  show "currentOffset this' = currentOffset this + LINE_WIDTH" by (simp add: this' f)
  show "again = (currentLine this' < maxLine this')" by (simp add: this' again)
qed

lemma printLine_measure:
  assumes "printLine this w = (Inr again, this', w')" and "again"
  shows "nat (maxLine this' - currentLine this') < nat (maxLine this - currentLine this)"
  using printLine_step [OF assms(1)] assms(2) by simp

text \<open>The pending calls, run one after the other by the event loop: each call of
  \<^verbatim>\<open>printLine\<close> that ends with \<^verbatim>\<open>setImmediate\<close> is followed by the next. (A signal
  or a closed pipe between two calls, which would end the process there, is not part
  of the model.)\<close>

function runImmediates :: "HexaFile \<Rightarrow> world \<Rightarrow> unit result" where
  "runImmediates this w =
     (case printLine this w of
        (Inl e, this1, w1) \<Rightarrow> (Inl e, this1, w1)
      | (Inr again, this1, w1) \<Rightarrow>
          if again then runImmediates this1 w1 else (Inr (), this1, w1))"
  by pat_completeness auto
termination
  apply (relation "measure (\<lambda>(this, w). nat (maxLine this - currentLine this))")
   apply simp
  apply clarify
  apply (drule sym)
  apply (drule printLine_measure)
   apply assumption
  apply simp
  done

declare runImmediates.simps [simp del]

text \<open>\<^verbatim>\<open>hexa.print()\<close> and the calls it leaves pending.\<close>

definition dump :: "HexaFile \<Rightarrow> world \<Rightarrow> unit result" where
  "dump this w =
     andThen (print this w) (\<lambda>again this1 w1.
       if again then runImmediates this1 w1 else (Inr (), this1, w1))"

subsection \<open>The command line\<close>

text \<open>What \<^verbatim>\<open>commander\<close> hands to the program: the positional arguments and the four
  options. \<open>opt_blockSize\<close> and \<open>opt_startOffset\<close> are \<^verbatim>\<open>program.blockSize\<close> and
  \<^verbatim>\<open>program.startOffset\<close> as \<^verbatim>\<open>String(...)\<close> and \<^verbatim>\<open>parseInt(...)\<close> read them:
  the text given on the command line, or \<open>''8''\<close> and \<open>''0''\<close> for the defaults 8 and 0.
  \<open>opt_hexa\<close> and \<open>opt_offset\<close> are \<^verbatim>\<open>program.hexa\<close> and \<^verbatim>\<open>program.offset\<close>.\<close>

record program =
  args :: "string list"
  opt_blockSize :: string
  opt_startOffset :: string
  opt_hexa :: bool
  opt_offset :: bool

text \<open>\<^verbatim>\<open>validateParams\<close>. The second message is logged together with the \<open>program\<close>
  object; the model keeps the message.\<close>

definition validateParams :: "program \<Rightarrow> world \<Rightarrow> bool \<times> world" where
  "validateParams prog w =
     (if \<not> matchAlternatives [''8'', ''16'', ''32'', ''64''] (opt_blockSize prog) then
        (False, console_log ''Error: size block can only be 8, 16, 32, 64'' w)
      else if (case parseInt (opt_startOffset prog) of None \<Rightarrow> True | Some n \<Rightarrow> n < 0) then
        (False, console_log ''Error: start offset must be > 0'' w)
      else (True, w))"

text \<open>How a run ends: \<open>Help\<close> is \<^verbatim>\<open>program.help()\<close> (usage text, then exit);
  \<open>Aborted\<close> is the \<^verbatim>\<open>catch\<close> branch (the error is logged, then the global
  \<^verbatim>\<open>cleanup\<close> closes the file and exits); \<open>Completed\<close> is a dump that printed its
  last line; \<open>Uncaught\<close> is an exception outside the \<^verbatim>\<open>try\<close> block.\<close>

datatype exit = Help | Aborted | Completed | Uncaught error

definition errorText :: "error \<Rightarrow> string" where
  "errorText e =
     (case e of
        Thrown s \<Rightarrow> s
      | TypeError \<Rightarrow> ''TypeError''
      | RangeError \<Rightarrow> ''RangeError''
      | EBADF \<Rightarrow> ''Error: EBADF''
      | EINVAL \<Rightarrow> ''Error: EINVAL''
      | ENOENT \<Rightarrow> ''Error: ENOENT'')"

text \<open>The top level of the script. The calls of \<^verbatim>\<open>printLine\<close> left pending by
  \<^verbatim>\<open>print\<close> run after the \<^verbatim>\<open>try\<close> block has been left. The branch for an object
  that the model cannot construct is never taken: \<^verbatim>\<open>validateParams\<close> has returned
  true, so \<^verbatim>\<open>parseInt(startOffset)\<close> is a number (lemma \<open>validateParams_constructs\<close>
  below).\<close>

definition main :: "program \<Rightarrow> world \<Rightarrow> exit \<times> world" where
  "main prog w =
     (case args prog of
        [] \<Rightarrow> (Help, w)
      | p # _ \<Rightarrow>
          (case validateParams prog w of
             (False, w1) \<Rightarrow> (Help, w1)
           | (True, w1) \<Rightarrow>
               (case new_HexaFile p (opt_blockSize prog) (opt_startOffset prog)
                       (opt_hexa prog) (opt_offset prog) of
                  None \<Rightarrow> (Uncaught TypeError, w1)
                | Some hexa \<Rightarrow>
                    (case andThen (openFile hexa w1) (\<lambda>_ this1 w2. print this1 w2) of
                       (Inl e, hexa1, w3) \<Rightarrow>
                         (case cleanup hexa1 (console_log (errorText e) w3) of
                            (Inl e1, _, w4) \<Rightarrow> (Uncaught e1, w4)
                          | (Inr _, _, w4) \<Rightarrow> (Aborted, w4))
                     | (Inr again, hexa1, w3) \<Rightarrow>
                         if again then
                           (case runImmediates hexa1 w3 of
                              (Inl e, _, w4) \<Rightarrow> (Uncaught e, w4)
                            | (Inr _, _, w4) \<Rightarrow> (Completed, w4))
                         else (Completed, w3)))))"

section \<open>The open session\<close>

text \<open>\<open>ready\<close> holds of the object and the world once \<^verbatim>\<open>openFile\<close> has succeeded: the
  file's status is known, the buffer is allocated with its 512 KiB, the descriptor is
  open on the file whose size \<^verbatim>\<open>fstat\<close> reports, and the window does not start
  below 0.\<close>

definition ready :: "HexaFile \<Rightarrow> world \<Rightarrow> bool" where
  "ready this w =
     (case fstat this of
        None \<Rightarrow> False
      | Some st \<Rightarrow>
          (case buffer this of
             None \<Rightarrow> False
           | Some buf \<Rightarrow>
               (case fd this of
                  None \<Rightarrow> False
                | Some h \<Rightarrow>
                    (case fds w h of
                       None \<Rightarrow> False
                     | Some content \<Rightarrow>
                         int (length buf) = BUFFER_LENGTH \<and>
                         st_size st = int (length content) \<and>
                         0 \<le> bufferStart this))))"

lemma readyE:
  assumes "ready this w"
  obtains st buf h content where "fstat this = Some st" "buffer this = Some buf"
    "fd this = Some h" "fds w h = Some content" "int (length buf) = BUFFER_LENGTH"
    "st_size st = int (length content)" "0 \<le> bufferStart this"
  using assms unfolding ready_def by (auto split: option.splits)

lemma readByteFromFile_eof:
  assumes "fstat this = Some st" and "st_size st \<le> offset"
  shows "readByteFromFile offset this w = (Inr (Some (- 1)), this, w)"
  using assms by (simp add: readByteFromFile_def)

lemma readByteFromFile_hit:
  assumes "fstat this = Some st" and "buffer this = Some buf"
    and "offset < st_size st" and "offset < BUFFER_LENGTH + bufferStart this"
  shows "readByteFromFile offset this w =
           (Inr (bufferAt buf (offset - bufferStart this)), this, w)"
  using assms by (simp add: readByteFromFile_def checkBuffer_def andThen_def)

lemma readByteFromFile_miss:
  assumes "ready this w" and "fstat this = Some st" and "buffer this = Some buf"
    and "fd this = Some h" and "fds w h = Some content"
    and "offset < st_size st" and "BUFFER_LENGTH + bufferStart this \<le> offset"
  shows "readByteFromFile offset this w =
           (let chunk = take (nat BUFFER_LENGTH) (drop (nat offset) content);
                buf' = chunk @ drop (length chunk) buf
            in (Inr (bufferAt buf' 0), this\<lparr>bufferStart := offset, buffer := Some buf'\<rparr>, w))"
proof -
  from assms(1) assms(2-5) have len: "int (length buf) = BUFFER_LENGTH" and "0 \<le> bufferStart this"
    by (auto elim!: readyE)
  with assms(7) have "0 \<le> offset" by (simp add: BUFFER_LENGTH_def)
  with assms len show ?thesis
    by (simp add: readByteFromFile_def checkBuffer_def andThen_def readChunk_def readSync_def Let_def)
qed


lemma bufferAt_range:
  assumes "bufferAt buf i = Some b"
  shows "0 \<le> b \<and> b < 256"
proof -
  from assms obtain x :: byte where "b = uint x"
    by (auto simp: bufferAt_def split: if_splits)
  moreover have "uint x < 2 ^ LENGTH(8)" by (rule uint_lt2p)
  ultimately show ?thesis by simp
qed

lemma readByteFromFile_ok:
  assumes "ready this w"
  shows "\<exists>v this'. readByteFromFile offset this w = (Inr v, this', w) \<and> ready this' w \<and>
           bufferStart this \<le> bufferStart this' \<and>
           (case v of None \<Rightarrow> True | Some b \<Rightarrow> - 1 \<le> b \<and> b < 256)"
proof -
  from assms obtain st buf h content where f: "fstat this = Some st" "buffer this = Some buf"
    "fd this = Some h" "fds w h = Some content" "int (length buf) = BUFFER_LENGTH"
    "st_size st = int (length content)" "0 \<le> bufferStart this"
    by (rule readyE)
  consider (eof) "st_size st \<le> offset"
    | (hit) "offset < st_size st" "offset < BUFFER_LENGTH + bufferStart this"
    | (miss) "offset < st_size st" "BUFFER_LENGTH + bufferStart this \<le> offset"
    by linarith
  then show ?thesis
  proof cases
    case eof
    with f assms show ?thesis by (simp add: readByteFromFile_eof)
  next
    case hit
    have "case bufferAt buf (offset - bufferStart this) of None \<Rightarrow> True
          | Some b \<Rightarrow> - 1 \<le> b \<and> b < 256"
      using bufferAt_range [of buf "offset - bufferStart this"]
      by (auto split: option.splits)
    with hit f assms show ?thesis by (simp add: readByteFromFile_hit)
  next
    case miss
    define chunk where "chunk = take (nat BUFFER_LENGTH) (drop (nat offset) content)"
    define buf' where "buf' = chunk @ drop (length chunk) buf"
    have len: "length buf' = length buf"
      using f(5) by (simp add: buf'_def chunk_def)
    have r: "readByteFromFile offset this w =
               (Inr (bufferAt buf' 0), this\<lparr>bufferStart := offset, buffer := Some buf'\<rparr>, w)"
      using readByteFromFile_miss [OF assms f(1-4) miss]
      by (simp add: Let_def chunk_def buf'_def)
    have "0 \<le> offset" using miss(2) f(7) by (simp add: BUFFER_LENGTH_def)
    then have rdy: "ready (this\<lparr>bufferStart := offset, buffer := Some buf'\<rparr>) w"
      using f len by (simp add: ready_def)
    have "case bufferAt buf' 0 of None \<Rightarrow> True | Some b \<Rightarrow> - 1 \<le> b \<and> b < 256"
      using bufferAt_range [of buf' 0] by (auto split: option.splits)
    with r rdy miss(2) show ?thesis by (simp add: BUFFER_LENGTH_def)
  qed
qed

lemma natToString16_digits: "set (natToString16 n) \<subseteq> set ''0123456789abcdef''"
proof (induction n rule: natToString16.induct)
  case (1 n)
  have d: "hexDigit k \<in> set ''0123456789abcdef''" for k
    unfolding hexDigit_def by (rule nth_mem) simp
  show ?case
  proof (cases "n < 16")
    case True
    then show ?thesis using d [of n] by (subst natToString16.simps) simp
  next
    case False
    with "1.IH" d [of "n mod 16"] show ?thesis
      by (subst natToString16.simps) auto
  qed
qed

lemma natToString16_length_byte:
  assumes "n < 256"
  shows "length (natToString16 n) \<le> 2"
proof (cases "n < 16")
  case True
  then show ?thesis by (subst natToString16.simps) simp
next
  case False
  from assms have "n div 16 < 16" by simp
  then have "natToString16 (n div 16) = [hexDigit (n div 16)]"
    by (subst natToString16.simps) simp
  with False show ?thesis by (subst natToString16.simps) simp
qed

lemma convertByteTotHexa_shape:
  assumes "0 \<le> b" and "b < 256"
  shows "length (convertByteTotHexa b) = 2 \<and> CHR '' '' \<notin> set (convertByteTotHexa b)"
proof -
  have l: "length (natToString16 (nat b)) \<le> 2"
    using assms by (intro natToString16_length_byte) simp
  have "set (substr_last 2 (''00'' @ natToString16 (nat b))) \<subseteq> set (''00'' @ natToString16 (nat b))"
    unfolding substr_last_def by (rule set_drop_subset)
  then have "set (convertByteTotHexa b) \<subseteq> set (''00'' @ natToString16 (nat b))"
    using assms by (simp add: convertByteTotHexa_def toString16_def)
  also have "\<dots> \<subseteq> set ''0123456789abcdef''"
    using natToString16_digits [of "nat b"] by auto
  finally have "CHR '' '' \<notin> set (convertByteTotHexa b)" by auto
  moreover have "length (convertByteTotHexa b) = 2"
    using assms l by (simp add: convertByteTotHexa_def substr_last_def toString16_def)
  ultimately show ?thesis by simp
qed

text \<open>A cell of the hex column: two characters, none of them a blank.\<close>

definition hexCell :: "string \<Rightarrow> bool" where
  "hexCell c = (length c = 2 \<and> CHR '' '' \<notin> set c)"

lemma getByteHexa_ok:
  assumes "ready this w"
  shows "\<exists>c this'. getByteHexa offset this w = (Inr c, this', w) \<and> ready this' w \<and>
           bufferStart this \<le> bufferStart this' \<and> hexCell c"
proof -
  from readByteFromFile_ok [OF assms, of offset] obtain v this' where
    r: "readByteFromFile offset this w = (Inr v, this', w)" and rdy: "ready this' w"
    and mono: "bufferStart this \<le> bufferStart this'"
    and v: "case v of None \<Rightarrow> True | Some b \<Rightarrow> - 1 \<le> b \<and> b < 256"
    by blast
  have "hexCell (case v of None \<Rightarrow> ''..'' | Some b \<Rightarrow> if b > - 1 then convertByteTotHexa b else ''..'')"
    using v convertByteTotHexa_shape by (auto simp: hexCell_def split: option.splits)
  with r rdy mono show ?thesis
    by (simp add: getByteHexa_def andThen_def)
qed

lemma getAscii_ok:
  assumes "ready this w"
  shows "\<exists>c this'. getAscii offset this w = (Inr c, this', w) \<and> ready this' w \<and>
           bufferStart this \<le> bufferStart this' \<and> length c = 1"
proof -
  from readByteFromFile_ok [OF assms, of offset] obtain v this' where
    r: "readByteFromFile offset this w = (Inr v, this', w)" and rdy: "ready this' w"
    and mono: "bufferStart this \<le> bufferStart this'"
    by blast
  then show ?thesis
    by (auto simp: getAscii_def andThen_def fromCharCode_def split: option.splits)
qed

text \<open>The hex column of a line whose cells are \<open>cells\<close>, the first of them at position
  \<open>pos\<close>: after the cell at position \<open>p\<close> come two blanks when the loop's test holds
  of \<open>p + 1\<close>.\<close>

fun layout :: "rat option \<Rightarrow> int \<Rightarrow> string list \<Rightarrow> string" where
  "layout spacing pos [] = []"
| "layout spacing pos (c # cs) =
     c @ (if pos + 1 \<noteq> 0 \<and> js_not (js_mod (Some (of_int (pos + 1))) spacing) then ''  '' else [])
       @ layout spacing (pos + 1) cs"

lemma getByteHexa_eof:
  assumes "fstat this = Some st" and "st_size st \<le> offset"
  shows "getByteHexa offset this w = (Inr ''..'', this, w)"
  using readByteFromFile_eof [OF assms] by (simp add: getByteHexa_def andThen_def)

lemma getAscii_eof:
  assumes "fstat this = Some st" and "st_size st \<le> offset"
  shows "getAscii offset this w = (Inr ''.'', this, w)"
  using readByteFromFile_eof [OF assms] by (simp add: getAscii_def andThen_def)

lemma generateLine_loop_ok:
  assumes "nat (LINE_WIDTH - pos) = n" and "ready this w" and "fstat this = Some st"
  shows "\<exists>cells chars this'.
           generateLine_loop spacing pos hexa ascii this w =
             (Inr (hexa @ layout spacing pos cells, ascii @ chars), this', w) \<and>
           ready this' w \<and> bufferStart this \<le> bufferStart this' \<and>
           length cells = n \<and> list_all hexCell cells \<and> length chars = n \<and>
           (\<forall>k<n. st_size st \<le> currentOffset this + pos + int k \<longrightarrow>
                  cells ! k = ''..'' \<and> chars ! k = CHR ''.'')"
  using assms
proof (induction n arbitrary: pos hexa ascii this)
  case 0
  then have "\<not> pos < LINE_WIDTH" by simp
  then have "generateLine_loop spacing pos hexa ascii this w = (Inr (hexa, ascii), this, w)"
    by (subst generateLine_loop.simps) simp
  with "0.prems" show ?case
    by (intro exI [of _ "[]"] exI [of _ this]) simp
next
  case (Suc n)
  then have lt: "pos < LINE_WIDTH" and n: "nat (LINE_WIDTH - (pos + 1)) = n" by simp_all
  note st = Suc.prems(3)
  from getByteHexa_ok [OF Suc.prems(2), of "currentOffset this + pos"]
  obtain c this1 where c: "getByteHexa (currentOffset this + pos) this w = (Inr c, this1, w)"
    and r1: "ready this1 w" and m1: "bufferStart this \<le> bufferStart this1" and hc: "hexCell c"
    by blast
  from getByteHexa_frame [OF c] have ow1: "onlyWindow this this1" by simp
  from getAscii_ok [OF r1, of "currentOffset this1 + pos"]
  obtain a this2 where a: "getAscii (currentOffset this1 + pos) this1 w = (Inr a, this2, w)"
    and r2: "ready this2 w" and m2: "bufferStart this1 \<le> bufferStart this2" and la: "length a = 1"
    by blast
  from getAscii_frame [OF a] have ow2: "onlyWindow this1 this2" by simp
  have co: "currentOffset this1 = currentOffset this" "currentOffset this2 = currentOffset this"
    and fs: "fstat this1 = Some st" "fstat this2 = Some st"
    using onlyWindow_fields [OF ow1] onlyWindow_fields [OF ow2] st by simp_all
  have eof: "c = ''..'' \<and> a = ''.''" if e: "st_size st \<le> currentOffset this + pos"
  proof -
    have e1: "st_size st \<le> currentOffset this1 + pos"
      using e co(1) by simp
    have "(Inr c :: error + string, this1, w) = (Inr ''..'', this, w)"
      by (rule trans [OF c [symmetric] getByteHexa_eof [OF st e]])
    moreover have "(Inr a :: error + string, this2, w) = (Inr ''.'', this1, w)"
      by (rule trans [OF a [symmetric] getAscii_eof [OF fs(1) e1]])
    ultimately show ?thesis by simp
  qed
  define sep where
    "sep = (if pos + 1 \<noteq> 0 \<and> js_not (js_mod (Some (of_int (pos + 1))) spacing) then ''  '' else [])"
  have step: "generateLine_loop spacing pos hexa ascii this w =
                generateLine_loop spacing (pos + 1) (hexa @ c @ sep) (ascii @ a) this2 w"
    using lt c a by (subst generateLine_loop.simps) (simp add: Let_def sep_def)
  from Suc.IH [OF n r2 fs(2), of "hexa @ c @ sep" "ascii @ a"]
  obtain cells chars this' where
    IH: "generateLine_loop spacing (pos + 1) (hexa @ c @ sep) (ascii @ a) this2 w =
           (Inr ((hexa @ c @ sep) @ layout spacing (pos + 1) cells, (ascii @ a) @ chars), this', w)"
      "ready this' w" "bufferStart this2 \<le> bufferStart this'" "length cells = n"
      "list_all hexCell cells" "length chars = n"
      "\<forall>k<n. st_size st \<le> currentOffset this2 + (pos + 1) + int k \<longrightarrow>
             cells ! k = ''..'' \<and> chars ! k = CHR ''.''"
    by blast
  have "generateLine_loop spacing pos hexa ascii this w =
          (Inr (hexa @ layout spacing pos (c # cells), ascii @ (a @ chars)), this', w)"
    using step IH(1) by (simp add: sep_def)
  moreover have "length (a @ chars) = Suc n" using la IH(6) by simp
  moreover have "list_all hexCell (c # cells)" using hc IH(5) by simp
  moreover have "length (c # cells) = Suc n" using IH(4) by simp
  moreover have "bufferStart this \<le> bufferStart this'" using m1 m2 IH(3) by simp
  moreover have "\<forall>k<Suc n. st_size st \<le> currentOffset this + pos + int k \<longrightarrow>
                   (c # cells) ! k = ''..'' \<and> (a @ chars) ! k = CHR ''.''"
  proof (intro allI impI)
    fix k assume k: "k < Suc n" and e: "st_size st \<le> currentOffset this + pos + int k"
    show "(c # cells) ! k = ''..'' \<and> (a @ chars) ! k = CHR ''.''"
    proof (cases k)
      case 0
      with e eof show ?thesis by simp
    next
      case (Suc j)
      with k e IH(7) co have "cells ! j = ''..'' \<and> chars ! j = CHR ''.''" by simp
      with Suc la show ?thesis by (simp add: nth_append)
    qed
  qed
  ultimately show ?case using IH(2) by blast
qed

lemma generateLine_ok:
  assumes "ready this w" and "fstat this = Some st"
  shows "\<exists>cells chars this'.
           generateLine this w =
             (Inr (if showHexa this then layout (spacingOf this) 0 cells @ chars else chars), this', w) \<and>
           ready this' w \<and> bufferStart this \<le> bufferStart this' \<and>
           length cells = nat LINE_WIDTH \<and> list_all hexCell cells \<and>
           length chars = nat LINE_WIDTH \<and>
           (\<forall>k<nat LINE_WIDTH. st_size st \<le> currentOffset this + int k \<longrightarrow>
                  cells ! k = ''..'' \<and> chars ! k = CHR ''.'')"
proof -
  from generateLine_loop_ok [OF _ assms, of 0 "nat LINE_WIDTH" "spacingOf this" "[]" "[]"]
  obtain cells chars this' where
    l: "generateLine_loop (spacingOf this) 0 [] [] this w =
          (Inr (layout (spacingOf this) 0 cells, chars), this', w)"
    and rest: "ready this' w" "bufferStart this \<le> bufferStart this'"
      "length cells = nat LINE_WIDTH" "list_all hexCell cells" "length chars = nat LINE_WIDTH"
      "\<forall>k<nat LINE_WIDTH. st_size st \<le> currentOffset this + int k \<longrightarrow>
             cells ! k = ''..'' \<and> chars ! k = CHR ''.''"
    by auto
  from generateLine_loop_frame [OF l] have "showHexa this' = showHexa this"
    by (simp add: onlyWindow_fields)
  with l have "generateLine this w =
      (Inr (if showHexa this then layout (spacingOf this) 0 cells @ chars else chars), this', w)"
    by (simp add: generateLine_def andThen_def)
  with rest show ?thesis by blast
qed

section \<open>A sample session\<close>

text \<open>A file of 26 bytes, the letters A to Z, in a world with no descriptor open; the
  object and the world after \<^verbatim>\<open>openFile\<close>, for the options \<^verbatim>\<open>-b 32\<close> with the
  start offset 0 and with the start offset 5.\<close>

definition sampleBytes :: "byte list" where
  "sampleBytes =
     [0x41, 0x42, 0x43, 0x44, 0x45, 0x46, 0x47, 0x48, 0x49, 0x4A, 0x4B, 0x4C, 0x4D,
      0x4E, 0x4F, 0x50, 0x51, 0x52, 0x53, 0x54, 0x55, 0x56, 0x57, 0x58, 0x59, 0x5A]"

definition sampleWorld :: world where
  "sampleWorld =
     \<lparr>files = [''f'' \<mapsto> RegularFile sampleBytes], fds = Map.empty, nextFd = 3,
      console = [], isWindows = False\<rparr>"

definition sampleOpenWorld :: world where
  "sampleOpenWorld = sampleWorld\<lparr>fds := [3 \<mapsto> sampleBytes], nextFd := 4\<rparr>"

definition sampleSession :: "int \<Rightarrow> HexaFile" where
  "sampleSession start =
     \<lparr>err = [], path = ''f'', currentOffset = start,
      buffer = Some (drop (nat start) sampleBytes @ replicate (524288 - (26 - nat start)) 0),
      blockSize = Some 32, bufferStart = start, showOffset = True, showHexa = True,
      fstat = Some \<lparr>isDirectory = False, st_size = 26\<rparr>, fd = Some 3,
      maxLine = 0, currentLine = 0\<rparr>"

lemma bitLength_le:
  assumes "n < 2 ^ k"
  shows "bitLength n \<le> k"
  using assms
proof (induction n arbitrary: k rule: bitLength.induct)
  case (1 n)
  show ?case
  proof (cases "n = 0")
    case True
    then show ?thesis by (subst bitLength.simps) simp
  next
    case False
    with "1.prems" obtain j where k: "k = Suc j" by (cases k) auto
    with "1.prems" have "n div 2 < 2 ^ j" by auto
    from "1.IH" [OF False this] k False show ?thesis
      by (subst bitLength.simps) simp
  qed
qed

lemma toDouble_exact:
  assumes "n < 2 ^ 53"
  shows "toDouble n = n"
  using bitLength_le [OF assms] by (simp add: toDouble_def)

lemma parseInt_samples:
  "parseInt ''0'' = Some 0" "parseInt ''5'' = Some 5" "parseInt ''32'' = Some 32"
  "parseInt ''100'' = Some 100"
  by (simp_all add: parseInt_def isWhiteSpace_def isDigitOf_def digitValue_def digitsValue_def
      toDouble_exact Let_def)

lemma sample_new:
  "new_HexaFile ''f'' ''32'' ''5'' True True =
     Some ((sampleSession 5)\<lparr>buffer := None, fstat := None, fd := None\<rparr>)"
  by (simp add: new_HexaFile_def parseInt_samples sampleSession_def)

lemma sample_openFile5:
  "openFile ((sampleSession 5)\<lparr>buffer := None, fstat := None, fd := None\<rparr>) sampleWorld =
     (Inr (), sampleSession 5, sampleOpenWorld)"
  by (simp add: openFile_def statFile_def statSync_def checkStartOffset_def openSync_def
      readChunk_def readSync_def andThen_def sampleSession_def sampleWorld_def sampleOpenWorld_def
      sampleBytes_def BUFFER_LENGTH_def Let_def)


lemma sample_ready: "ready (sampleSession 0) sampleOpenWorld" "ready (sampleSession 5) sampleOpenWorld"
  by (simp_all add: ready_def sampleSession_def sampleOpenWorld_def sampleWorld_def sampleBytes_def
      BUFFER_LENGTH_def)

lemma sample_read3: "readByteFromFile 3 (sampleSession 0) sampleOpenWorld = (Inr (Some 0x44), sampleSession 0, sampleOpenWorld)"
  by (simp add: readByteFromFile_def checkBuffer_def andThen_def bufferAt_def sampleSession_def
      sampleBytes_def BUFFER_LENGTH_def)

lemma sample_read2: "readByteFromFile 2 (sampleSession 5) sampleOpenWorld = (Inr None, sampleSession 5, sampleOpenWorld)"
  by (simp add: readByteFromFile_def checkBuffer_def andThen_def bufferAt_def sampleSession_def
      sampleBytes_def BUFFER_LENGTH_def)

section \<open>The character gloss\<close>

text \<open>C2. \<^verbatim>\<open>getAscii\<close> on the value \<open>b\<close> that \<^verbatim>\<open>readByteFromFile\<close> returns, a byte
  from 0 to 255 or the end-of-file value \<open>-1\<close>: a dot for the end of the file; a dot for
  \<open>0xAD\<close> on every platform; on Windows the character of \<open>b\<close> exactly when
  \<open>32 \<le> b < 127\<close>, else a dot; elsewhere the character of \<open>b\<close> exactly when
  \<open>32 \<le> b < 127\<close> or \<open>b > 160\<close>, and \<open>b\<close> is not \<open>0xAD\<close>, else a dot.\<close>

theorem getAscii_renders:
  assumes "readByteFromFile offset this w = (Inr (Some b), this', w')"
    and "b = - 1 \<or> (0 \<le> b \<and> b \<le> 255)"
  shows "getAscii offset this w =
           (Inr (if b = - 1 then ''.''
                 else if b = 0xAD then ''.''
                 else if isWindows w then (if 32 \<le> b \<and> b < 127 then [char_of b] else ''.'')
                 else (if ((32 \<le> b \<and> b < 127) \<or> b > 160) \<and> b \<noteq> 0xAD then [char_of b]
                       else ''.'')),
            this', w')"
proof -
  from readByteFromFile_frame [OF assms(1)] have "w' = w" by simp
  with assms show ?thesis
    by (auto simp: getAscii_def andThen_def fromCharCode_def)
qed

theorem getAscii_renders_witness:
  "readByteFromFile 3 (sampleSession 0) sampleOpenWorld =
     (Inr (Some 0x44), sampleSession 0, sampleOpenWorld) \<and>
   getAscii 3 (sampleSession 0) sampleOpenWorld = (Inr ''D'', sampleSession 0, sampleOpenWorld)"
  using getAscii_renders [OF sample_read3] sample_read3
  by (simp add: sampleOpenWorld_def sampleWorld_def char_of_def)

section \<open>Past the end of the file\<close>

text \<open>C4. In an open session, an offset at or after the size of the file is served
  without an error and without touching the window: \<^verbatim>\<open>readByteFromFile\<close> returns
  \<open>-1\<close>, \<^verbatim>\<open>getByteHexa\<close> gives \<open>..\<close> and \<^verbatim>\<open>getAscii\<close> gives a dot. A line therefore
  always has its 24 hex cells and its 24 gloss characters, and the positions at or
  after the end of the file hold \<open>..\<close> and a dot.\<close>

theorem eof_is_padded:
  assumes "ready this w" and "fstat this = Some st" and "st_size st \<le> offset"
  shows "readByteFromFile offset this w = (Inr (Some (- 1)), this, w) \<and>
         getByteHexa offset this w = (Inr ''..'', this, w) \<and>
         getAscii offset this w = (Inr ''.'', this, w) \<and>
         (\<exists>cells chars this'.
            generateLine this w =
              (Inr (if showHexa this then layout (spacingOf this) 0 cells @ chars else chars),
               this', w) \<and>
            length cells = 24 \<and> list_all hexCell cells \<and> length chars = 24 \<and>
            (\<forall>k<24. st_size st \<le> currentOffset this + int k \<longrightarrow>
                   cells ! k = ''..'' \<and> chars ! k = CHR ''.''))"
proof -
  from generateLine_ok [OF assms(1,2)]
  obtain cells chars this' where
    g: "generateLine this w =
          (Inr (if showHexa this then layout (spacingOf this) 0 cells @ chars else chars), this', w)"
    and l: "length cells = nat LINE_WIDTH" "list_all hexCell cells" "length chars = nat LINE_WIDTH"
    and p: "\<forall>k<nat LINE_WIDTH. st_size st \<le> currentOffset this + int k \<longrightarrow>
                cells ! k = ''..'' \<and> chars ! k = CHR ''.''"
    by blast
  have l24: "length cells = 24" "length chars = 24"
    using l by (simp_all add: LINE_WIDTH_def)
  have p24: "\<forall>k<24. st_size st \<le> currentOffset this + int k \<longrightarrow>
                cells ! k = ''..'' \<and> chars ! k = CHR ''.''"
    using p by (simp add: LINE_WIDTH_def)
  from g l24 l(2) p24 readByteFromFile_eof [OF assms(2,3)] getByteHexa_eof [OF assms(2,3)]
    getAscii_eof [OF assms(2,3)]
  show ?thesis by blast
qed

lemma sample_fstat: "fstat (sampleSession start) = Some \<lparr>isDirectory = False, st_size = 26\<rparr>"
  by (simp add: sampleSession_def)

theorem eof_is_padded_witness:
  "ready (sampleSession 0) sampleOpenWorld \<and>
   fstat (sampleSession 0) = Some \<lparr>isDirectory = False, st_size = 26\<rparr> \<and>
   st_size \<lparr>isDirectory = False, st_size = 26\<rparr> \<le> 26 \<and>
   readByteFromFile 26 (sampleSession 0) sampleOpenWorld =
     (Inr (Some (- 1)), sampleSession 0, sampleOpenWorld) \<and>
   getByteHexa 26 (sampleSession 0) sampleOpenWorld = (Inr ''..'', sampleSession 0, sampleOpenWorld) \<and>
   getAscii 26 (sampleSession 0) sampleOpenWorld = (Inr ''.'', sampleSession 0, sampleOpenWorld)"
  using eof_is_padded [OF sample_ready(1) sample_fstat, of 26] sample_ready(1) sample_fstat [of 0]
  by simp

section \<open>The window\<close>

text \<open>\<open>windowHolds\<close>: the front of the buffer is the part of the file that a read of
  \<^verbatim>\<open>BUFFER_LENGTH\<close> bytes at \<open>bufferStart\<close> delivers.\<close>

definition windowHolds :: "HexaFile \<Rightarrow> world \<Rightarrow> bool" where
  "windowHolds this w =
     (case buffer this of
        None \<Rightarrow> False
      | Some buf \<Rightarrow>
          (case fd this of
             None \<Rightarrow> False
           | Some h \<Rightarrow>
               (case fds w h of
                  None \<Rightarrow> False
                | Some content \<Rightarrow>
                    (let chunk = take (nat BUFFER_LENGTH) (drop (nat (bufferStart this)) content)
                     in take (length chunk) buf = chunk))))"

lemma window_byte:
  assumes "take (length chunk) buf = chunk" and "i < length chunk"
  shows "buf ! i = chunk ! i"
  by (metis assms nth_take)

lemma readByteFromFile_served:
  assumes rdy: "ready this w" and wh: "windowHolds this w"
    and st: "fstat this = Some st" and h: "fd this = Some h" and content: "fds w h = Some content"
    and lo: "bufferStart this \<le> offset" and hi: "offset < st_size st"
  shows "\<exists>this' buf'.
           readByteFromFile offset this w =
             (Inr (bufferAt buf' (offset - bufferStart this')), this', w) \<and>
           buffer this' = Some buf' \<and>
           this' = (if offset < bufferStart this + BUFFER_LENGTH then this
                    else this\<lparr>bufferStart := offset, buffer := Some buf'\<rparr>) \<and>
           bufferStart this' \<le> offset \<and> offset < bufferStart this' + BUFFER_LENGTH \<and>
           bufferAt buf' (offset - bufferStart this') = Some (uint (content ! nat offset)) \<and>
           ready this' w \<and> windowHolds this' w"
proof -
  from rdy st h content obtain buf where buf: "buffer this = Some buf"
    and len: "int (length buf) = BUFFER_LENGTH" and size: "st_size st = int (length content)"
    and nonneg: "0 \<le> bufferStart this"
    by (auto elim!: readyE)
  show ?thesis
  proof (cases "offset < bufferStart this + BUFFER_LENGTH")
    case True
    define chunk where "chunk = take (nat BUFFER_LENGTH) (drop (nat (bufferStart this)) content)"
    define i where "i = nat (offset - bufferStart this)"
    have tk: "take (length chunk) buf = chunk"
      using wh buf h content by (simp add: windowHolds_def chunk_def Let_def)
    have i: "i < length chunk"
      using True lo hi size nonneg by (simp add: chunk_def i_def)
    have eq: "nat (bufferStart this) + i = nat offset"
      using lo nonneg by (simp add: i_def)
    have "nat (bufferStart this) \<le> length content"
      using lo hi size nonneg by linarith
    then have "chunk ! i = content ! (nat (bufferStart this) + i)"
      using i by (simp add: chunk_def)
    then have "chunk ! i = content ! nat offset"
      by (simp only: eq)
    with window_byte [OF tk i] have "buf ! i = content ! nat offset" by simp
    moreover have "i < length buf" using True lo len by (simp add: i_def)
    ultimately have val: "bufferAt buf (offset - bufferStart this) = Some (uint (content ! nat offset))"
      using lo by (simp add: bufferAt_def i_def)
    have "readByteFromFile offset this w =
            (Inr (bufferAt buf (offset - bufferStart this)), this, w)"
      using st buf hi True by (intro readByteFromFile_hit) simp_all
    with True buf val lo rdy wh show ?thesis by simp
  next
    case False
    define chunk where "chunk = take (nat BUFFER_LENGTH) (drop (nat offset) content)"
    define buf' where "buf' = chunk @ drop (length chunk) buf"
    define this' where "this' = this\<lparr>bufferStart := offset, buffer := Some buf'\<rparr>"
    from False have miss: "BUFFER_LENGTH + bufferStart this \<le> offset" by simp
    have off: "0 \<le> offset" using miss nonneg by (simp add: BUFFER_LENGTH_def)
    have r: "readByteFromFile offset this w = (Inr (bufferAt buf' 0), this', w)"
      using readByteFromFile_miss [OF rdy st buf h content hi miss]
      by (simp add: Let_def chunk_def buf'_def this'_def)
    have len': "length buf' = length buf"
      using len by (simp add: buf'_def chunk_def)
    have ne: "0 < length chunk"
      using hi size off by (simp add: chunk_def BUFFER_LENGTH_def)
    then have "buf' ! 0 = content ! nat offset"
      by (simp add: buf'_def nth_append) (simp add: chunk_def)
    then have val: "bufferAt buf' 0 = Some (uint (content ! nat offset))"
      using len len' by (simp add: bufferAt_def BUFFER_LENGTH_def)
    have rdy': "ready this' w"
      using st h content len len' size off by (simp add: ready_def this'_def)
    have "take (length chunk) buf' = chunk"
      by (simp add: buf'_def)
    then have wh': "windowHolds this' w"
      using h content unfolding windowHolds_def this'_def Let_def chunk_def by simp
    have "buffer this' = Some buf'" "bufferStart this' = offset"
      by (simp_all add: this'_def)
    with False r val rdy' wh' show ?thesis
      by (simp add: this'_def BUFFER_LENGTH_def)
  qed
qed


text \<open>A file of 600000 bytes, larger than the buffer, opened at offset 0.\<close>

definition bigBytes :: "byte list" where
  "bigBytes = replicate 600000 0x41"

definition bigWorld :: world where
  "bigWorld =
     \<lparr>files = [''g'' \<mapsto> RegularFile bigBytes], fds = [3 \<mapsto> bigBytes], nextFd = 4,
      console = [], isWindows = False\<rparr>"

definition bigSession :: HexaFile where
  "bigSession =
     \<lparr>err = [], path = ''g'', currentOffset = 0, buffer = Some (replicate 524288 0x41),
      blockSize = Some 8, bufferStart = 0, showOffset = True, showHexa = True,
      fstat = Some \<lparr>isDirectory = False, st_size = 600000\<rparr>, fd = Some 3,
      maxLine = 0, currentLine = 0\<rparr>"

lemma big_openFile:
  "openFile (bigSession\<lparr>buffer := None, fstat := None, fd := None\<rparr>)
     (bigWorld\<lparr>fds := Map.empty, nextFd := 3\<rparr>) = (Inr (), bigSession, bigWorld)"
  by (simp add: openFile_def statFile_def statSync_def checkStartOffset_def openSync_def
      readChunk_def readSync_def andThen_def bigSession_def bigWorld_def bigBytes_def
      BUFFER_LENGTH_def Let_def)

lemma big_ready: "ready bigSession bigWorld"
  by (simp add: ready_def bigSession_def bigWorld_def bigBytes_def BUFFER_LENGTH_def)

lemma big_windowHolds: "windowHolds bigSession bigWorld"
  by (simp add: windowHolds_def bigSession_def bigWorld_def bigBytes_def BUFFER_LENGTH_def)

lemma big_fstat: "fstat bigSession = Some \<lparr>isDirectory = False, st_size = 600000\<rparr>"
  by (simp add: bigSession_def)

lemma sample_windowHolds:
  "windowHolds (sampleSession 0) sampleOpenWorld" "windowHolds (sampleSession 5) sampleOpenWorld"
  by (simp_all add: windowHolds_def sampleSession_def sampleOpenWorld_def sampleWorld_def
      sampleBytes_def BUFFER_LENGTH_def)

text \<open>C1, as amended. In an open session, for an offset from the start of the window
  on and below the size of the file: when the offset is at or after the end of the
  window, the window is refilled and starts at the offset; when it is inside the
  window, the object is left as it is. The value returned is the buffer's entry at
  \<open>offset - bufferStart\<close>, a byte of the buffer, and the offset served lies in the
  window and below the size of the file.\<close>

theorem readByteFromFile_window:
  assumes "ready this w" and "windowHolds this w" and "fstat this = Some st"
    and "bufferStart this \<le> offset" and "offset < st_size st"
  shows "\<exists>this' buf'.
           readByteFromFile offset this w =
             (Inr (bufferAt buf' (offset - bufferStart this')), this', w) \<and>
           buffer this' = Some buf' \<and>
           (offset < bufferStart this + BUFFER_LENGTH \<longrightarrow> this' = this) \<and>
           (bufferStart this + BUFFER_LENGTH \<le> offset \<longrightarrow> bufferStart this' = offset) \<and>
           bufferAt buf' (offset - bufferStart this') \<noteq> None \<and>
           bufferStart this' \<le> offset \<and> offset < bufferStart this' + BUFFER_LENGTH \<and>
           offset < st_size st \<and> ready this' w \<and> windowHolds this' w"
proof -
  from assms(1) obtain h content where h: "fd this = Some h" "fds w h = Some content"
    by (auto elim: readyE)
  from readByteFromFile_served [OF assms(1-3) h assms(4,5)]
  obtain this' buf' where
    r: "readByteFromFile offset this w =
          (Inr (bufferAt buf' (offset - bufferStart this')), this', w)"
    and b: "buffer this' = Some buf'"
    and t: "this' = (if offset < bufferStart this + BUFFER_LENGTH then this
                     else this\<lparr>bufferStart := offset, buffer := Some buf'\<rparr>)"
    and rest: "bufferStart this' \<le> offset" "offset < bufferStart this' + BUFFER_LENGTH"
      "bufferAt buf' (offset - bufferStart this') = Some (uint (content ! nat offset))"
      "ready this' w" "windowHolds this' w"
    by blast
  from t have "offset < bufferStart this + BUFFER_LENGTH \<longrightarrow> this' = this"
    and "bufferStart this + BUFFER_LENGTH \<le> offset \<longrightarrow> bufferStart this' = offset"
    by (simp_all split: if_splits)
  with r b rest assms(5) show ?thesis by (intro exI [of _ this'] exI [of _ buf']) simp
qed

theorem readByteFromFile_window_witness:
  "ready bigSession bigWorld \<and> windowHolds bigSession bigWorld \<and>
   fstat bigSession = Some \<lparr>isDirectory = False, st_size = 600000\<rparr> \<and>
   bufferStart bigSession \<le> 524293 \<and> 524293 < st_size \<lparr>isDirectory = False, st_size = 600000\<rparr> \<and>
   (\<exists>this' buf'.
      readByteFromFile 524293 bigSession bigWorld = (Inr (bufferAt buf' 0), this', bigWorld) \<and>
      buffer this' = Some buf' \<and> bufferStart this' = 524293 \<and> bufferAt buf' 0 \<noteq> None)"
proof -
  have b: "bufferStart bigSession = 0" by (simp add: bigSession_def)
  from readByteFromFile_window [OF big_ready big_windowHolds big_fstat, of 524293]
  obtain this' buf' where
    "readByteFromFile 524293 bigSession bigWorld =
       (Inr (bufferAt buf' (524293 - bufferStart this')), this', bigWorld)"
    "buffer this' = Some buf'" "bufferStart this' = 524293"
    "bufferAt buf' (524293 - bufferStart this') \<noteq> None"
    by (auto simp: b BUFFER_LENGTH_def)
  then have "\<exists>this' buf'.
      readByteFromFile 524293 bigSession bigWorld = (Inr (bufferAt buf' 0), this', bigWorld) \<and>
      buffer this' = Some buf' \<and> bufferStart this' = 524293 \<and> bufferAt buf' 0 \<noteq> None"
    by (intro exI [of _ this'] exI [of _ buf']) simp
  with big_ready big_windowHolds big_fstat b show ?thesis by simp
qed

text \<open>The claim as it stands fails below the window. The session opened with the start
  offset 5 has its window at 5; a read at offset 2, which is below the size 26 and
  outside the window, refills nothing, leaves \<open>bufferStart\<close> at 5 and returns
  \<^verbatim>\<open>undefined\<close>, the buffer's entry at the index \<open>-3\<close>.\<close>

theorem readByteFromFile_below_window:
  "new_HexaFile ''f'' ''32'' ''5'' True True =
     Some ((sampleSession 5)\<lparr>buffer := None, fstat := None, fd := None\<rparr>) \<and>
   openFile ((sampleSession 5)\<lparr>buffer := None, fstat := None, fd := None\<rparr>) sampleWorld =
     (Inr (), sampleSession 5, sampleOpenWorld) \<and>
   fstat (sampleSession 5) = Some \<lparr>isDirectory = False, st_size = 26\<rparr> \<and>
   bufferStart (sampleSession 5) = 5 \<and>
   readByteFromFile 2 (sampleSession 5) sampleOpenWorld =
     (Inr None, sampleSession 5, sampleOpenWorld)"
  using sample_new sample_openFile5 sample_read2 sample_fstat [of 5]
  by (simp add: sampleSession_def)

section \<open>A sequence of reads\<close>

text \<open>The calls \<^verbatim>\<open>readByteFromFile(o)\<close> for the offsets of a list, one after the other.
  For each call that returns, \<open>lookups\<close> records the offset, \<open>bufferStart\<close> as the
  call left it, and the value returned; it stops at a call that throws.\<close>

fun lookups :: "int list \<Rightarrow> HexaFile \<Rightarrow> world \<Rightarrow> (int \<times> int \<times> int option) list" where
  "lookups [] this w = []"
| "lookups (offset # rest) this w =
     (case readByteFromFile offset this w of
        (Inl e, this1, w1) \<Rightarrow> []
      | (Inr v, this1, w1) \<Rightarrow> (offset, bufferStart this1, v) # lookups rest this1 w1)"

lemma lookups_ok:
  assumes "ready this w" and "windowHolds this w" and "fstat this = Some st"
    and "sorted (bufferStart this # offsets)"
  shows "length (lookups offsets this w) = length offsets \<and>
         map fst (lookups offsets this w) = offsets \<and>
         sorted (bufferStart this # map (\<lambda>(offset, start, v). start) (lookups offsets this w)) \<and>
         (\<forall>(offset, start, v) \<in> set (lookups offsets this w).
            offset < st_size st \<longrightarrow>
              0 \<le> offset - start \<and> offset - start < BUFFER_LENGTH \<and> v \<noteq> None)"
  using assms
proof (induction offsets arbitrary: this)
  case Nil
  then show ?case by simp
next
  case (Cons offset rest)
  from Cons.prems(4) have lo: "bufferStart this \<le> offset" and srt: "sorted (offset # rest)"
    by simp_all
  have "\<exists>v this'. readByteFromFile offset this w = (Inr v, this', w) \<and> ready this' w \<and>
          windowHolds this' w \<and> fstat this' = Some st \<and>
          bufferStart this \<le> bufferStart this' \<and> bufferStart this' \<le> offset \<and>
          (offset < st_size st \<longrightarrow> offset - bufferStart this' < BUFFER_LENGTH \<and> v \<noteq> None)"
  proof (cases "offset < st_size st")
    case False
    with Cons.prems lo show ?thesis
      by (simp add: readByteFromFile_eof)
  next
    case True
    from Cons.prems(1) obtain h content where h: "fd this = Some h" "fds w h = Some content"
      by (auto elim: readyE)
    from readByteFromFile_served [OF Cons.prems(1-3) h lo True]
    obtain this' buf' where
      r: "readByteFromFile offset this w =
            (Inr (bufferAt buf' (offset - bufferStart this')), this', w)"
      and t: "this' = (if offset < bufferStart this + BUFFER_LENGTH then this
                       else this\<lparr>bufferStart := offset, buffer := Some buf'\<rparr>)"
      and rest: "bufferStart this' \<le> offset" "offset < bufferStart this' + BUFFER_LENGTH"
        "bufferAt buf' (offset - bufferStart this') = Some (uint (content ! nat offset))"
        "ready this' w" "windowHolds this' w"
      by blast
    from t lo Cons.prems(3) have "fstat this' = Some st" "bufferStart this \<le> bufferStart this'"
      by (simp_all split: if_splits)
    with r rest show ?thesis by simp
  qed
  then obtain v this' where
    r: "readByteFromFile offset this w = (Inr v, this', w)"
    and inv: "ready this' w" "windowHolds this' w" "fstat this' = Some st"
    and mono: "bufferStart this \<le> bufferStart this'" "bufferStart this' \<le> offset"
    and idx: "offset < st_size st \<longrightarrow> offset - bufferStart this' < BUFFER_LENGTH \<and> v \<noteq> None"
    by blast
  from srt mono(2) have "sorted (bufferStart this' # rest)" by auto
  from Cons.IH [OF inv this]
  have IH: "length (lookups rest this' w) = length rest"
    "map fst (lookups rest this' w) = rest"
    "sorted (bufferStart this' # map (\<lambda>(offset, start, v). start) (lookups rest this' w))"
    "\<forall>(offset, start, v) \<in> set (lookups rest this' w).
        offset < st_size st \<longrightarrow>
          0 \<le> offset - start \<and> offset - start < BUFFER_LENGTH \<and> v \<noteq> None"
    by simp_all
  have l: "lookups (offset # rest) this w = (offset, bufferStart this', v) # lookups rest this' w"
    using r by simp
  show ?case
    unfolding l using IH mono idx by (auto split: prod.splits)
qed

section \<open>Opening the file\<close>

definition startWarning :: string where
  "startWarning =
     ''Warning: specified start offset is out of bounds, using default start offset of 0''"

text \<open>What a successful \<^verbatim>\<open>openFile\<close> leaves behind, for an object whose window starts
  at its current offset, as the constructor makes it.\<close>

lemma openFile_success:
  assumes ok: "openFile this0 w0 = (Inr (), this, w)"
    and same: "bufferStart this0 = currentOffset this0"
  shows "\<exists>content start.
           files w0 (path this0) = Some (RegularFile content) \<and> content \<noteq> [] \<and>
           start = (if int (length content) \<le> currentOffset this0 then 0 else currentOffset this0) \<and>
           0 \<le> start \<and> start < int (length content) \<and>
           this = this0\<lparr>currentOffset := start, bufferStart := start,
                        fstat := Some \<lparr>isDirectory = False, st_size = int (length content)\<rparr>,
                        fd := Some (nextFd w0),
                        buffer := Some (take (nat BUFFER_LENGTH) (drop (nat start) content) @
                                   drop (length (take (nat BUFFER_LENGTH) (drop (nat start) content)))
                                     (replicate (nat BUFFER_LENGTH) 0))\<rparr> \<and>
           w = w0\<lparr>fds := (fds w0)(nextFd w0 \<mapsto> content), nextFd := Suc (nextFd w0),
                  console := console w0 @
                    (if int (length content) \<le> currentOffset this0 then [startWarning] else [])\<rparr>"
proof -
  from ok obtain content where f: "files w0 (path this0) = Some (RegularFile content)"
    by (auto simp: openFile_def andThen_def statFile_def statSync_def
        split: option.splits node.splits)
  from ok f have ne: "content \<noteq> []"
    by (auto simp: openFile_def andThen_def statFile_def statSync_def)
  define start where
    "start = (if int (length content) \<le> currentOffset this0 then 0 else currentOffset this0)"
  define this2 where
    "this2 = this0\<lparr>currentOffset := start, bufferStart := start,
               fstat := Some \<lparr>isDirectory = False, st_size = int (length content)\<rparr>\<rparr>"
  define w2 where
    "w2 = w0\<lparr>console := console w0 @
                 (if int (length content) \<le> currentOffset this0 then [startWarning] else [])\<rparr>"
  have s1: "statFile this0 w0 =
              (Inr (), this0\<lparr>fstat := Some \<lparr>isDirectory = False, st_size = int (length content)\<rparr>\<rparr>, w0)"
    using f ne by (simp add: statFile_def statSync_def)
  have s2: "checkStartOffset
              (this0\<lparr>fstat := Some \<lparr>isDirectory = False, st_size = int (length content)\<rparr>\<rparr>) w0 =
              (Inr (), this2, w2)"
    using same
    by (cases this0, cases w0)
       (simp add: checkStartOffset_def this2_def w2_def start_def console_log_def startWarning_def)
  have s3: "openSync w2 (path this2) =
              (Inr (nextFd w0), w2\<lparr>fds := (fds w0)(nextFd w0 \<mapsto> content), nextFd := Suc (nextFd w0)\<rparr>)"
    using f by (simp add: openSync_def w2_def this2_def)
  define w3 where "w3 = w2\<lparr>fds := (fds w0)(nextFd w0 \<mapsto> content), nextFd := Suc (nextFd w0)\<rparr>"
  define this4 where
    "this4 = this2\<lparr>fd := Some (nextFd w0), buffer := Some (replicate (nat BUFFER_LENGTH) 0)\<rparr>"
  have s4: "openFile this0 w0 = readChunk start this4 w3"
    using s1 s2 s3 by (simp add: openFile_def andThen_def Let_def this4_def w3_def this2_def)
  have nonneg: "0 \<le> start"
  proof (rule ccontr)
    assume "\<not> 0 \<le> start"
    then have "readChunk start this4 w3 = (Inl EINVAL, this4, w3)"
      by (simp add: readChunk_def readSync_def this4_def w3_def BUFFER_LENGTH_def)
    with s4 ok show False by simp
  qed
  have lt: "start < int (length content)"
    using ne by (simp add: start_def)
  have r: "readChunk start this4 w3 =
             (Inr (), this4\<lparr>buffer := Some (take (nat BUFFER_LENGTH) (drop (nat start) content) @
                                   drop (length (take (nat BUFFER_LENGTH) (drop (nat start) content)))
                                     (replicate (nat BUFFER_LENGTH) 0))\<rparr>, w3)"
    using nonneg
    by (simp add: readChunk_def readSync_def this4_def w3_def BUFFER_LENGTH_def Let_def)
  from ok s4 r have
    "this = this4\<lparr>buffer := Some (take (nat BUFFER_LENGTH) (drop (nat start) content) @
                                   drop (length (take (nat BUFFER_LENGTH) (drop (nat start) content)))
                                     (replicate (nat BUFFER_LENGTH) 0))\<rparr>" and "w = w3"
    by simp_all
  then have "this = this0\<lparr>currentOffset := start, bufferStart := start,
                        fstat := Some \<lparr>isDirectory = False, st_size = int (length content)\<rparr>,
                        fd := Some (nextFd w0),
                        buffer := Some (take (nat BUFFER_LENGTH) (drop (nat start) content) @
                                   drop (length (take (nat BUFFER_LENGTH) (drop (nat start) content)))
                                     (replicate (nat BUFFER_LENGTH) 0))\<rparr>"
    and "w = w0\<lparr>fds := (fds w0)(nextFd w0 \<mapsto> content), nextFd := Suc (nextFd w0),
                  console := console w0 @
                    (if int (length content) \<le> currentOffset this0 then [startWarning] else [])\<rparr>"
    by (simp_all add: this4_def this2_def w3_def w2_def)
  with f ne nonneg lt start_def show ?thesis by blast
qed

lemma new_HexaFile_start:
  assumes "new_HexaFile p blockSizeArg startOffsetArg hexaArg offsetArg = Some this0"
  shows "bufferStart this0 = currentOffset this0" "path this0 = p"
    "parseInt startOffsetArg = Some (currentOffset this0)"
    "blockSize this0 = parseInt blockSizeArg" "showHexa this0 = hexaArg"
    "showOffset this0 = offsetArg"
  using assms by (auto simp: new_HexaFile_def split: option.splits)

lemma openFile_ready:
  assumes "openFile this0 w0 = (Inr (), this, w)" and "bufferStart this0 = currentOffset this0"
  shows "ready this w" "windowHolds this w" "bufferStart this = currentOffset this"
    "\<exists>st. fstat this = Some st \<and> 0 \<le> currentOffset this \<and> currentOffset this < st_size st"
proof -
  from openFile_success [OF assms] obtain content start where
    s: "0 \<le> start" "start < int (length content)"
    and t: "this = this0\<lparr>currentOffset := start, bufferStart := start,
                        fstat := Some \<lparr>isDirectory = False, st_size = int (length content)\<rparr>,
                        fd := Some (nextFd w0),
                        buffer := Some (take (nat BUFFER_LENGTH) (drop (nat start) content) @
                                   drop (length (take (nat BUFFER_LENGTH) (drop (nat start) content)))
                                     (replicate (nat BUFFER_LENGTH) 0))\<rparr>"
    and w: "w = w0\<lparr>fds := (fds w0)(nextFd w0 \<mapsto> content), nextFd := Suc (nextFd w0),
                  console := console w0 @
                    (if int (length content) \<le> currentOffset this0 then [startWarning] else [])\<rparr>"
    by blast
  show "ready this w"
    using s by (simp add: ready_def t w BUFFER_LENGTH_def)
  have tk: "take (min (length xs - k) n) (drop k xs) = take n (drop k xs)"
    for n k and xs :: "byte list"
    by (simp add: min_def)
  show "windowHolds this w"
    by (simp add: windowHolds_def t w Let_def tk)
  show "bufferStart this = currentOffset this"
    by (simp add: t)
  show "\<exists>st. fstat this = Some st \<and> 0 \<le> currentOffset this \<and> currentOffset this < st_size st"
    using s by (simp add: t)
qed

text \<open>C10. After a successful \<^verbatim>\<open>openFile\<close> on a constructed object, let
  \<^verbatim>\<open>readByteFromFile\<close> be called on a list of offsets that never decrease and do not
  start below the window. Then no call throws, \<open>bufferStart\<close> never decreases, and
  every call below the size of the file looks the buffer up at an index
  \<open>offset - bufferStart\<close> from 0 up to but not including \<^verbatim>\<open>BUFFER_LENGTH\<close>, so that
  it returns a byte of the buffer and not \<^verbatim>\<open>undefined\<close>.\<close>

theorem lookups_in_buffer:
  assumes "new_HexaFile p blockSizeArg startOffsetArg hexaArg offsetArg = Some this0"
    and "openFile this0 w0 = (Inr (), this, w)"
    and "fstat this = Some st"
    and "sorted (bufferStart this # offsets)"
  shows "map fst (lookups offsets this w) = offsets \<and>
         sorted (bufferStart this # map (\<lambda>(offset, start, v). start) (lookups offsets this w)) \<and>
         (\<forall>(offset, start, v) \<in> set (lookups offsets this w).
            offset < st_size st \<longrightarrow>
              0 \<le> offset - start \<and> offset - start < BUFFER_LENGTH \<and> v \<noteq> None)"
proof -
  note same = new_HexaFile_start(1) [OF assms(1)]
  from lookups_ok [OF openFile_ready(1,2) [OF assms(2) same] assms(3,4)]
  show ?thesis by simp
qed

theorem lookups_in_buffer_witness:
  "new_HexaFile ''f'' ''32'' ''5'' True True =
     Some ((sampleSession 5)\<lparr>buffer := None, fstat := None, fd := None\<rparr>) \<and>
   openFile ((sampleSession 5)\<lparr>buffer := None, fstat := None, fd := None\<rparr>) sampleWorld =
     (Inr (), sampleSession 5, sampleOpenWorld) \<and>
   fstat (sampleSession 5) = Some \<lparr>isDirectory = False, st_size = 26\<rparr> \<and>
   sorted (bufferStart (sampleSession 5) # [5, 5, 6, 6, 25, 26]) \<and>
   map fst (lookups [5, 5, 6, 6, 25, 26] (sampleSession 5) sampleOpenWorld) = [5, 5, 6, 6, 25, 26] \<and>
   list_all (\<lambda>(offset, start, v). offset < 26 \<and> 0 \<le> offset - start \<and> offset - start < BUFFER_LENGTH \<and> v \<noteq> None \<or> (26 \<le> offset \<and> v = Some (-1)))
     (lookups [5, 5, 6, 6, 25, 26] (sampleSession 5) sampleOpenWorld)"
proof -
  have srt: "sorted (bufferStart (sampleSession 5) # [5, 5, 6, 6, 25, 26])"
    by (simp add: sampleSession_def)
  have ev: "lookups [5, 5, 6, 6, 25, 26] (sampleSession 5) sampleOpenWorld =
          [(5, 5, Some 0x46), (5, 5, Some 0x46), (6, 5, Some 0x47), (6, 5, Some 0x47),
           (25, 5, Some 0x5A), (26, 5, Some (- 1))]"
    by (simp add: readByteFromFile_def checkBuffer_def andThen_def bufferAt_def sampleSession_def
      sampleBytes_def BUFFER_LENGTH_def)
  from lookups_in_buffer [OF sample_new sample_openFile5 sample_fstat srt]
  have "map fst (lookups [5, 5, 6, 6, 25, 26] (sampleSession 5) sampleOpenWorld) =
          [5, 5, 6, 6, 25, 26]"
    by simp
  with sample_new sample_openFile5 sample_fstat [of 5] srt ev show ?thesis
    by (simp add: BUFFER_LENGTH_def)
qed

section \<open>The offset column\<close>












section \<open>Printing a line\<close>

lemma ready_cursor [simp]:
  "ready (this\<lparr>currentOffset := a\<rparr>) w = ready this w"
  "ready (this\<lparr>currentLine := b\<rparr>) w = ready this w"
  "ready (this\<lparr>maxLine := c\<rparr>) w = ready this w"
  "ready this (console_log l w) = ready this w"
  by (simp_all add: ready_def console_log_def split: option.splits)

lemma windowHolds_cursor [simp]:
  "windowHolds (this\<lparr>currentOffset := a\<rparr>) w = windowHolds this w"
  "windowHolds (this\<lparr>currentLine := b\<rparr>) w = windowHolds this w"
  "windowHolds (this\<lparr>maxLine := c\<rparr>) w = windowHolds this w"
  "windowHolds this (console_log l w) = windowHolds this w"
  by (simp_all add: windowHolds_def console_log_def split: option.splits)

lemma printLine_ok:
  assumes "ready this w" and "fstat this = Some st"
  shows "\<exists>g this1.
           generateLine this w = (Inr g, this1, w) \<and> ready this1 w \<and> onlyWindow this this1 \<and>
           bufferStart this \<le> bufferStart this1 \<and>
           printLine this w =
             (Inr (currentLine this + 1 < maxLine this),
              this1\<lparr>currentOffset := currentOffset this + LINE_WIDTH,
                     currentLine := currentLine this + 1\<rparr>,
              console_log ((if showOffset this then getOffset this @ ''   '' else []) @ g) w)"
proof -
  from generateLine_ok [OF assms] obtain g this1 where
    g: "generateLine this w = (Inr g, this1, w)" and r: "ready this1 w"
    and m: "bufferStart this \<le> bufferStart this1"
    by blast
  from generateLine_frame [OF g] have ow: "onlyWindow this this1" by simp
  note f = onlyWindow_fields [OF ow]
  have "printLine this w =
             (Inr (currentLine this + 1 < maxLine this),
              this1\<lparr>currentOffset := currentOffset this + LINE_WIDTH,
                     currentLine := currentLine this + 1\<rparr>,
              console_log ((if showOffset this then getOffset this @ ''   '' else []) @ g) w)"
    using g by (simp add: printLine_def andThen_def Let_def f)
  with g r ow m show ?thesis by blast
qed



text \<open>A start offset written in decimal digits, below \<open>2^53\<close>, is read by \<^verbatim>\<open>parseInt\<close>
  as the number it denotes.\<close>

lemma digit_not_space: "isDigitOf 10 c \<Longrightarrow> \<not> isWhiteSpace c"
  by (auto simp: isDigitOf_def isWhiteSpace_def digitValue_def split: if_splits option.splits)

lemma digit_not_sign:
  "isDigitOf 10 c \<Longrightarrow>
   c \<noteq> CHR ''-'' \<and> c \<noteq> CHR ''+'' \<and> c \<noteq> CHR ''x'' \<and> c \<noteq> CHR ''X''"
  by (auto simp: isDigitOf_def digitValue_def split: if_splits option.splits)

lemma parseInt_decimal:
  assumes "ds \<noteq> []" and "\<forall>c \<in> set ds. isDigitOf 10 c" and "digitsValue 10 ds < 2 ^ 53"
  shows "parseInt ds = Some (int (digitsValue 10 ds))"
proof -
  from assms(1) obtain c cs where ds: "ds = c # cs" by (cases ds) auto
  with assms(2) have c: "isDigitOf 10 c" by simp
  note ns = digit_not_space [OF c] digit_not_sign [OF c]
  have s1: "dropWhile isWhiteSpace ds = ds" using ds ns by simp
  have sg: "take 1 ds \<noteq> ''-''" "take 1 ds \<noteq> ''+''" using ds ns by simp_all
  have sg': "take (Suc 0) ds \<noteq> ''-''" "take (Suc 0) ds \<noteq> ''+''" using ds ns by simp_all
  have hx: "take 2 ds \<noteq> ''0x''" "take 2 ds \<noteq> ''0X''"
  proof -
    show "take 2 ds \<noteq> ''0x''"
    proof
      assume a: "take 2 ds = ''0x''"
      then obtain d where "cs = CHR ''x'' # d" using ds by (cases cs) auto
      with ds assms(2) have "isDigitOf 10 CHR ''x''" by simp
      with digit_not_sign show False by blast
    qed
    show "take 2 ds \<noteq> ''0X''"
    proof
      assume a: "take 2 ds = ''0X''"
      then obtain d where "cs = CHR ''X'' # d" using ds by (cases cs) auto
      with ds assms(2) have "isDigitOf 10 CHR ''X''" by simp
      with digit_not_sign show False by blast
    qed
  qed
  have tw: "takeWhile (isDigitOf 10) ds = ds"
    using assms(2) by (simp add: takeWhile_eq_all_conv)
  show ?thesis
    using assms(1) assms(3)
    by (simp add: parseInt_def s1 sg sg' hx tw toDouble_exact Let_def)
qed

text \<open>From \<open>2^53\<close> on it is rounded: \<open>2^53 + 1\<close> lies halfway between two doubles and is
  read as the even one, \<open>2^53\<close>.\<close>

lemma bitLength_sample: "bitLength 9007199254740993 = 54"
  by (simp add: bitLength.simps)

lemma parseInt_rounds:
  "parseInt ''9007199254740993'' = Some 9007199254740992"
  by (simp add: parseInt_def isWhiteSpace_def isDigitOf_def digitValue_def digitsValue_def
      toDouble_def bitLength_sample Let_def)

text \<open>The offsets of a run are file positions: \<^verbatim>\<open>currentOffset\<close> is what \<^verbatim>\<open>parseInt\<close>
  gave, a double, and \<^verbatim>\<open>openFile\<close> hands it to \<^verbatim>\<open>fs.readSync\<close> as the position to read
  from, which Node takes only up to \<^verbatim>\<open>Number.MAX_SAFE_INTEGER\<close>, the range where the
  doubles are the integers themselves. So an offset is an integer from 0 to
  \<open>MAX_SAFE_INTEGER\<close>.\<close>




section \<open>The lines of a dump\<close>

text \<open>The object and the world after the first \<open>n\<close> calls of \<^verbatim>\<open>printLine\<close>.\<close>

fun afterCalls :: "nat \<Rightarrow> HexaFile \<Rightarrow> world \<Rightarrow> HexaFile \<times> world" where
  "afterCalls 0 this w = (this, w)"
| "afterCalls (Suc n) this w =
     (case afterCalls n this w of (this1, w1) \<Rightarrow> snd (printLine this1 w1))"

lemma afterCalls_shift:
  "afterCalls (Suc n) this w =
     (case snd (printLine this w) of (this1, w1) \<Rightarrow> afterCalls n this1 w1)"
proof (induction n)
  case 0
  show ?case by (simp split: prod.splits)
next
  case (Suc n)
  have "afterCalls (Suc (Suc n)) this w =
          (case afterCalls (Suc n) this w of (this1, w1) \<Rightarrow> snd (printLine this1 w1))"
    by simp
  also have "\<dots> = (case snd (printLine this w) of (this1, w1) \<Rightarrow> afterCalls (Suc n) this1 w1)"
    unfolding Suc.IH by (simp split: prod.splits)
  finally show ?case .
qed

lemma ready_console [simp]: "ready this (w\<lparr>console := c\<rparr>) = ready this w"
  by (simp add: ready_def split: option.splits)

lemma runImmediates_calls:
  assumes "ready this w" and "fstat this = Some st"
    and "m = nat (maxLine this - currentLine this - 1)"
  shows "runImmediates this w =
           (Inr (), fst (afterCalls (Suc m) this w), snd (afterCalls (Suc m) this w))"
  using assms
proof (induction m arbitrary: this w)
  case 0
  from printLine_ok [OF "0.prems"(1,2)] obtain this1 w1 where
    p: "printLine this w = (Inr (currentLine this + 1 < maxLine this), this1, w1)"
    by blast
  from "0.prems"(3) have "\<not> currentLine this + 1 < maxLine this" by simp
  with p show ?case
    by (subst runImmediates.simps) simp
next
  case (Suc m)
  from printLine_ok [OF Suc.prems(1,2)] obtain g this1 where
    r1: "ready this1 w" and ow: "onlyWindow this this1"
    and p: "printLine this w =
             (Inr (currentLine this + 1 < maxLine this),
              this1\<lparr>currentOffset := currentOffset this + LINE_WIDTH,
                     currentLine := currentLine this + 1\<rparr>,
              console_log ((if showOffset this then getOffset this @ ''   '' else []) @ g) w)"
    by blast
  define this2 where
    "this2 = this1\<lparr>currentOffset := currentOffset this + LINE_WIDTH,
                    currentLine := currentLine this + 1\<rparr>"
  define w2 where
    "w2 = console_log ((if showOffset this then getOffset this @ ''   '' else []) @ g) w"
  note f = onlyWindow_fields [OF ow]
  from Suc.prems(3) have again: "currentLine this + 1 < maxLine this" by simp
  have r2: "ready this2 w2" using r1 by (simp add: this2_def w2_def)
  have f2: "fstat this2 = Some st" using f Suc.prems(2) by (simp add: this2_def)
  have m: "m = nat (maxLine this2 - currentLine this2 - 1)"
    using Suc.prems(3) f by (simp add: this2_def)
  have "runImmediates this w = runImmediates this2 w2"
    using p again by (subst runImmediates.simps) (simp add: this2_def w2_def)
  also have "\<dots> = (Inr (), fst (afterCalls (Suc m) this2 w2), snd (afterCalls (Suc m) this2 w2))"
    by (rule Suc.IH [OF r2 f2 m])
  also have "afterCalls (Suc m) this2 w2 = afterCalls (Suc (Suc m)) this w"
    using p by (subst (2) afterCalls_shift) (simp add: this2_def w2_def)
  finally show ?case .
qed


lemma dump_runImmediates:
  assumes "fstat this = Some st"
  shows "dump this w =
           runImmediates
             (this\<lparr>maxLine := \<lceil>(of_int (st_size st) :: rat) / of_int LINE_WIDTH\<rceil>,
                    currentLine := 0\<rparr>) w"
  using assms
  by (subst runImmediates.simps)
     (simp add: dump_def print_def andThen_def Let_def split: prod.splits sum.splits)

lemma afterCalls_lines:
  assumes "ready this w" and "fstat this = Some st"
  shows "\<exists>tn ls.
           afterCalls n this w = (tn, w\<lparr>console := console w @ ls\<rparr>) \<and> length ls = n \<and>
           ready tn w \<and> fstat tn = Some st \<and>
           currentOffset tn = currentOffset this + LINE_WIDTH * int n \<and>
           showOffset tn = showOffset this \<and>
           (\<forall>i<n. \<exists>ti wi g t'.
              afterCalls i this w = (ti, wi) \<and>
              currentOffset ti = currentOffset this + LINE_WIDTH * int i \<and>
              generateLine ti wi = (Inr g, t', wi) \<and>
              ls ! i = (if showOffset this
                        then convertOffsetTotHexa (currentOffset this + LINE_WIDTH * int i) @ ''   ''
                        else []) @ g)"
proof (induction n)
  case 0
  show ?case using assms by (intro exI [of _ this] exI [of _ "[]"]) simp
next
  case (Suc n)
  then obtain tn ls where
    a: "afterCalls n this w = (tn, w\<lparr>console := console w @ ls\<rparr>)" and l: "length ls = n"
    and r: "ready tn w" and f: "fstat tn = Some st"
    and co: "currentOffset tn = currentOffset this + LINE_WIDTH * int n"
    and so: "showOffset tn = showOffset this"
    and prev: "\<forall>i<n. \<exists>ti wi g t'.
              afterCalls i this w = (ti, wi) \<and>
              currentOffset ti = currentOffset this + LINE_WIDTH * int i \<and>
              generateLine ti wi = (Inr g, t', wi) \<and>
              ls ! i = (if showOffset this
                        then convertOffsetTotHexa (currentOffset this + LINE_WIDTH * int i) @ ''   ''
                        else []) @ g"
    by blast
  define wn where "wn = w\<lparr>console := console w @ ls\<rparr>"
  have rn: "ready tn wn" using r by (simp add: wn_def)
  from printLine_ok [OF rn f] obtain g t1 where
    g: "generateLine tn wn = (Inr g, t1, wn)" and r1: "ready t1 wn"
    and ow: "onlyWindow tn t1"
    and p: "printLine tn wn =
             (Inr (currentLine tn + 1 < maxLine tn),
              t1\<lparr>currentOffset := currentOffset tn + LINE_WIDTH,
                   currentLine := currentLine tn + 1\<rparr>,
              console_log ((if showOffset tn then getOffset tn @ ''   '' else []) @ g) wn)"
    by blast
  note fl = onlyWindow_fields [OF ow]
  define line where
    "line = (if showOffset this
             then convertOffsetTotHexa (currentOffset this + LINE_WIDTH * int n) @ ''   ''
             else []) @ g"
  define t2 where
    "t2 = t1\<lparr>currentOffset := currentOffset tn + LINE_WIDTH, currentLine := currentLine tn + 1\<rparr>"
  have w2: "console_log ((if showOffset tn then getOffset tn @ ''   '' else []) @ g) wn =
              w\<lparr>console := console w @ (ls @ [line])\<rparr>"
    by (simp add: console_log_def wn_def line_def so co getOffset_def)
  have a': "afterCalls (Suc n) this w = (t2, w\<lparr>console := console w @ (ls @ [line])\<rparr>)"
    using a p w2 by (simp add: wn_def [symmetric] t2_def)
  have "ready t2 w" using r1 by (simp add: t2_def wn_def)
  moreover have "fstat t2 = Some st" using fl f by (simp add: t2_def)
  moreover have "currentOffset t2 = currentOffset this + LINE_WIDTH * int (Suc n)"
    by (simp add: t2_def co algebra_simps)
  moreover have "showOffset t2 = showOffset this" using fl so by (simp add: t2_def)
  moreover have "length (ls @ [line]) = Suc n" using l by simp
  moreover have "\<forall>i<Suc n. \<exists>ti wi g t'.
              afterCalls i this w = (ti, wi) \<and>
              currentOffset ti = currentOffset this + LINE_WIDTH * int i \<and>
              generateLine ti wi = (Inr g, t', wi) \<and>
              (ls @ [line]) ! i = (if showOffset this
                        then convertOffsetTotHexa (currentOffset this + LINE_WIDTH * int i) @ ''   ''
                        else []) @ g"
  proof (intro allI impI)
    fix i assume "i < Suc n"
    then consider "i < n" | "i = n" by linarith
    then show "\<exists>ti wi g t'.
              afterCalls i this w = (ti, wi) \<and>
              currentOffset ti = currentOffset this + LINE_WIDTH * int i \<and>
              generateLine ti wi = (Inr g, t', wi) \<and>
              (ls @ [line]) ! i = (if showOffset this
                        then convertOffsetTotHexa (currentOffset this + LINE_WIDTH * int i) @ ''   ''
                        else []) @ g"
    proof cases
      case 1
      with prev l show ?thesis by (simp add: nth_append)
    next
      case 2
      have "(ls @ [line]) ! n = line" using l by (simp add: nth_append)
      with 2 a g co show ?thesis
        unfolding wn_def line_def by blast
    qed
  qed
  ultimately show ?case using a' by blast
qed


lemma dump_lines:
  assumes "ready this w" and "fstat this = Some st" and "0 < st_size st"
  shows "\<exists>this' w' lines.
           dump this w = (Inr (), this', w') \<and>
           console w' = console w @ lines \<and>
           int (length lines) = \<lceil>(of_int (st_size st) :: rat) / 24\<rceil> \<and>
           (\<forall>i<length lines. \<exists>ti wi g t'.
              afterCalls i
                (this\<lparr>maxLine := \<lceil>(of_int (st_size st) :: rat) / 24\<rceil>, currentLine := 0\<rparr>) w =
                (ti, wi) \<and>
              currentOffset ti = currentOffset this + 24 * int i \<and>
              generateLine ti wi = (Inr g, t', wi) \<and>
              lines ! i = (if showOffset this
                           then convertOffsetTotHexa (currentOffset this + 24 * int i) @ ''   ''
                           else []) @ g)"
proof -
  define N where "N = \<lceil>(of_int (st_size st) :: rat) / 24\<rceil>"
  define this1 where "this1 = this\<lparr>maxLine := N, currentLine := 0\<rparr>"
  have "(0::rat) < of_int (st_size st) / 24" using assms(3) by simp
  then have N: "0 < N" unfolding N_def by (simp only: zero_less_ceiling)
  have r1: "ready this1 w" and f1: "fstat this1 = Some st"
    using assms by (simp_all add: this1_def)
  have d: "dump this w = runImmediates this1 w"
    using dump_runImmediates [OF assms(2), of w] by (simp add: this1_def N_def LINE_WIDTH_def)
  have cf: "currentOffset this1 = currentOffset this" "showOffset this1 = showOffset this"
    by (simp_all add: this1_def)
  have lw: "LINE_WIDTH = 24" by (simp add: LINE_WIDTH_def)
  have m: "nat (N - 1) = nat (maxLine this1 - currentLine this1 - 1)"
    by (simp add: this1_def)
  have S: "Suc (nat (N - 1)) = nat N" using N by simp
  from runImmediates_calls [OF r1 f1 m]
  have run: "runImmediates this1 w =
               (Inr (), fst (afterCalls (nat N) this1 w), snd (afterCalls (nat N) this1 w))"
    by (simp only: S)
  from afterCalls_lines [OF r1 f1, of "nat N"] obtain tn ls where
    a: "afterCalls (nat N) this1 w = (tn, w\<lparr>console := console w @ ls\<rparr>)"
    and l: "length ls = nat N"
    and lines: "\<forall>i<nat N. \<exists>ti wi g t'.
              afterCalls i this1 w = (ti, wi) \<and>
              currentOffset ti = currentOffset this1 + LINE_WIDTH * int i \<and>
              generateLine ti wi = (Inr g, t', wi) \<and>
              ls ! i = (if showOffset this1
                        then convertOffsetTotHexa (currentOffset this1 + LINE_WIDTH * int i) @ ''   ''
                        else []) @ g"
    by blast
  have "dump this w = (Inr (), tn, w\<lparr>console := console w @ ls\<rparr>)"
    using d run a by simp
  moreover have "console (w\<lparr>console := console w @ ls\<rparr>) = console w @ ls" by simp
  moreover have "int (length ls) = N" using l N by simp
  moreover have "\<forall>i<length ls. \<exists>ti wi g t'.
              afterCalls i this1 w = (ti, wi) \<and>
              currentOffset ti = currentOffset this + 24 * int i \<and>
              generateLine ti wi = (Inr g, t', wi) \<and>
              ls ! i = (if showOffset this
                           then convertOffsetTotHexa (currentOffset this + 24 * int i) @ ''   ''
                           else []) @ g"
    using lines unfolding l cf lw .
  ultimately show ?thesis
    unfolding this1_def N_def by blast
qed



section \<open>The groups of the hex column\<close>

lemma readByteFromFile_in_window:
  assumes "ready this w" and "windowHolds this w" and "fstat this = Some st"
    and "fd this = Some h" and "fds w h = Some content"
    and "bufferStart this \<le> offset" and "offset < st_size st"
    and "offset < bufferStart this + BUFFER_LENGTH"
  shows "readByteFromFile offset this w = (Inr (Some (uint (content ! nat offset))), this, w)"
  using readByteFromFile_served [OF assms(1-7)] assms(8) by auto

lemma separator_every_4:
  assumes "0 \<le> p"
  shows "js_not (js_mod (Some (of_int p)) (Some 4)) = (p mod 4 = 0)"
proof -
  have "js_trunc (of_int p / 4) = p div 4"
  proof -
    have "(0::rat) \<le> of_int p / 4" using assms by simp
    moreover have "\<lfloor>(of_int p :: rat) / of_int 4\<rfloor> = p div 4"
      by (rule floor_divide_of_int_eq)
    ultimately show ?thesis by (simp add: js_trunc_def)
  qed
  then have "js_mod (Some (of_int p)) (Some 4) = Some (of_int (p - 4 * (p div 4)))"
    by (simp add: js_mod_def)
  also have "p - 4 * (p div 4) = p mod 4"
    by (simp add: minus_mult_div_eq_mod)
  finally show ?thesis
    by (simp add: js_not_def)
qed

lemma layout_groups_of_4:
  assumes "length cells = 24"
  shows "layout (Some 4) 0 cells =
           concat (map (\<lambda>g. concat (take 4 (drop (4 * g) cells)) @ ''  '') [0, 1, 2, 3, 4, 5])"
proof -
  from assms obtain c0 c1 c2 c3 c4 c5 c6 c7 c8 c9 c10 c11 c12 c13 c14 c15 c16 c17 c18 c19
    c20 c21 c22 c23 where
    "cells = [c0, c1, c2, c3, c4, c5, c6, c7, c8, c9, c10, c11, c12, c13, c14, c15, c16, c17,
              c18, c19, c20, c21, c22, c23]"
    by (auto simp: length_Suc_conv numeral_eq_Suc)
  then show ?thesis
    by (simp add: separator_every_4 [of "numeral k" for k, simplified] separator_every_4 [of 1, simplified])
qed


lemma blanks_of_groups:
  assumes "length cells = 24" and "list_all hexCell cells"
  shows "length (filter (\<lambda>c. c = CHR '' '')
           (concat (map (\<lambda>g. concat (take 4 (drop (4 * g) cells)) @ ''  '') [0, 1, 2, 3, 4, 5]))) = 12"
proof -
  have b: "filter (\<lambda>c. c = CHR '' '') c = []" if "hexCell c" for c
    using that by (auto simp: hexCell_def filter_empty_conv)
  from assms(1) obtain c0 c1 c2 c3 c4 c5 c6 c7 c8 c9 c10 c11 c12 c13 c14 c15 c16 c17 c18 c19
    c20 c21 c22 c23 where
    "cells = [c0, c1, c2, c3, c4, c5, c6, c7, c8, c9, c10, c11, c12, c13, c14, c15, c16, c17,
              c18, c19, c20, c21, c22, c23]"
    by (auto simp: length_Suc_conv numeral_eq_Suc)
  with assms(2) show ?thesis
    by (simp add: b)
qed

text \<open>C5, as amended. With the block size 32 (groups of 4 bytes), the hex column that
  the loop of \<^verbatim>\<open>generateLine\<close> builds for a line is its 24 cells in 6 groups of 4,
  each group followed by two blanks: the separators stand after the bytes 4, 8, 12,
  16, 20 and 24, and the column has no other blank.\<close>

theorem hex_column_groups:
  assumes "ready this w" and "fstat this = Some st" and "blockSize this = Some 32"
  shows "\<exists>cells hexa chars this'.
           generateLine_loop (spacingOf this) 0 [] [] this w = (Inr (hexa, chars), this', w) \<and>
           generateLine this w = (Inr (if showHexa this then hexa @ chars else chars), this', w) \<and>
           length cells = 24 \<and> list_all hexCell cells \<and>
           hexa = concat (map (\<lambda>g. concat (take 4 (drop (4 * g) cells)) @ ''  '') [0, 1, 2, 3, 4, 5]) \<and>
           length (filter (\<lambda>c. c = CHR '' '') hexa) = 2 * 6"
proof -
  have sp: "spacingOf this = Some 4"
    using assms(3) by (simp add: spacingOf_def)
  from generateLine_loop_ok [OF _ assms(1,2), of 0 "nat LINE_WIDTH" "spacingOf this" "[]" "[]"]
  obtain cells chars this' where
    l: "generateLine_loop (spacingOf this) 0 [] [] this w =
          (Inr (layout (spacingOf this) 0 cells, chars), this', w)"
    and c: "length cells = nat LINE_WIDTH" "list_all hexCell cells"
    by auto
  from c(1) have c24: "length cells = 24" by (simp add: LINE_WIDTH_def)
  define hexa where
    "hexa = concat (map (\<lambda>g. concat (take 4 (drop (4 * g) cells)) @ ''  '') [0, 1, 2, 3, 4, 5])"
  have lay: "layout (spacingOf this) 0 cells = hexa"
    unfolding sp hexa_def by (rule layout_groups_of_4 [OF c24])
  have l': "generateLine_loop (spacingOf this) 0 [] [] this w = (Inr (hexa, chars), this', w)"
    using l lay by simp
  from generateLine_loop_frame [OF l'] have "showHexa this' = showHexa this"
    by (simp add: onlyWindow_fields)
  with l' have g: "generateLine this w =
      (Inr (if showHexa this then hexa @ chars else chars), this', w)"
    by (simp add: generateLine_def andThen_def)
  have "length (filter (\<lambda>c. c = CHR '' '') hexa) = 2 * 6"
    unfolding hexa_def using blanks_of_groups [OF c24 c(2)] by simp
  with l' g c24 c(2) hexa_def show ?thesis by blast
qed

lemma sample_read:
  assumes "0 \<le> offset" and "offset < 26"
  shows "readByteFromFile offset (sampleSession 0) sampleOpenWorld =
           (Inr (Some (uint (sampleBytes ! nat offset))), sampleSession 0, sampleOpenWorld)"
proof (rule readByteFromFile_in_window [OF sample_ready(1) sample_windowHolds(1) sample_fstat])
  show "fd (sampleSession 0) = Some 3" by (simp add: sampleSession_def)
  show "fds sampleOpenWorld 3 = Some sampleBytes" by (simp add: sampleOpenWorld_def)
  show "bufferStart (sampleSession 0) \<le> offset" using assms by (simp add: sampleSession_def)
  show "offset < st_size \<lparr>isDirectory = False, st_size = 26\<rparr>" using assms by simp
  show "offset < bufferStart (sampleSession 0) + BUFFER_LENGTH"
    using assms by (simp add: sampleSession_def BUFFER_LENGTH_def)
qed

lemma sample_line0:
  "generateLine_loop (spacingOf (sampleSession 0)) 0 [] [] (sampleSession 0) sampleOpenWorld =
     (Inr (''41424344  45464748  494a4b4c  4d4e4f50  51525354  55565758  '',
           ''ABCDEFGHIJKLMNOPQRSTUVWX''),
      sampleSession 0, sampleOpenWorld)"
proof -
  have c: "currentOffset (sampleSession 0) = 0" "spacingOf (sampleSession 0) = Some 4"
    by (simp_all add: sampleSession_def spacingOf_def)
  have w: "isWindows sampleOpenWorld = False"
    by (simp add: sampleOpenWorld_def sampleWorld_def)
  show ?thesis
    unfolding c
    by (simp add: generateLine_loop.simps LINE_WIDTH_def getByteHexa_def getAscii_def andThen_def
        sample_read c w sampleBytes_def convertByteTotHexa_def substr_last_def toString16_def
        natToString16.simps hexDigit_def fromCharCode_def char_of_def
        separator_every_4 [of "numeral k" for k, simplified] separator_every_4 [of 1, simplified])
qed


theorem hex_column_groups_witness:
  "ready (sampleSession 0) sampleOpenWorld \<and>
   fstat (sampleSession 0) = Some \<lparr>isDirectory = False, st_size = 26\<rparr> \<and>
   blockSize (sampleSession 0) = Some 32 \<and>
   generateLine (sampleSession 0) sampleOpenWorld =
     (Inr (''41424344  45464748  494a4b4c  4d4e4f50  51525354  55565758  '' @
           ''ABCDEFGHIJKLMNOPQRSTUVWX''),
      sampleSession 0, sampleOpenWorld) \<and>
   length (filter (\<lambda>c. c = CHR '' '')
     ''41424344  45464748  494a4b4c  4d4e4f50  51525354  55565758  '') = 2 * 6"
proof -
  have b: "blockSize (sampleSession 0) = Some 32" and h: "showHexa (sampleSession 0)"
    by (simp_all add: sampleSession_def)
  from hex_column_groups [OF sample_ready(1) sample_fstat b]
  obtain hexa chars this' where
    "generateLine_loop (spacingOf (sampleSession 0)) 0 [] [] (sampleSession 0) sampleOpenWorld =
       (Inr (hexa, chars), this', sampleOpenWorld)"
    and g: "generateLine (sampleSession 0) sampleOpenWorld =
       (Inr (if showHexa (sampleSession 0) then hexa @ chars else chars), this', sampleOpenWorld)"
    and n: "length (filter (\<lambda>c. c = CHR '' '') hexa) = 2 * 6"
    by blast
  with sample_line0
  have e: "hexa = ''41424344  45464748  494a4b4c  4d4e4f50  51525354  55565758  ''"
    "chars = ''ABCDEFGHIJKLMNOPQRSTUVWX''" "this' = sampleSession 0"
    by simp_all
  from g n h sample_ready(1) sample_fstat [of 0] b show ?thesis
    unfolding e by simp
qed

text \<open>The claim as it stands (5 separators, none after byte 24) fails on every line:
  the first line of the sample file, with the block size 32, has its sixth separator
  after byte 24, at the end of the hex column.\<close>

theorem hex_column_sixth_separator:
  "blockSize (sampleSession 0) = Some 32 \<and>
   generateLine_loop (spacingOf (sampleSession 0)) 0 [] [] (sampleSession 0) sampleOpenWorld =
     (Inr (''41424344  45464748  494a4b4c  4d4e4f50  51525354  55565758  '',
           ''ABCDEFGHIJKLMNOPQRSTUVWX''),
      sampleSession 0, sampleOpenWorld) \<and>
   drop (2 * 24 + 2 * 5) ''41424344  45464748  494a4b4c  4d4e4f50  51525354  55565758  '' = ''  '' \<and>
   length (filter (\<lambda>c. c = CHR '' '')
     ''41424344  45464748  494a4b4c  4d4e4f50  51525354  55565758  '') = 12"
  using sample_line0 by (simp add: sampleSession_def)

section \<open>The console is only written\<close>

text \<open>No method reads the console: run in a world that differs in the console only, a
  method returns the same value and the same object, and appends the same lines.\<close>

lemma readByteFromFile_console:
  "readByteFromFile offset this (w\<lparr>console := c\<rparr>) =
     (case readByteFromFile offset this w of (r, t, w') \<Rightarrow> (r, t, w'\<lparr>console := c\<rparr>))"
  by (simp add: readByteFromFile_def checkBuffer_def readChunk_def readSync_def andThen_def
      split: option.splits sum.splits)

lemma getByteHexa_console:
  "getByteHexa offset this (w\<lparr>console := c\<rparr>) =
     (case getByteHexa offset this w of (r, t, w') \<Rightarrow> (r, t, w'\<lparr>console := c\<rparr>))"
  by (simp add: getByteHexa_def andThen_def readByteFromFile_console split: prod.splits sum.splits)

lemma getAscii_console:
  "getAscii offset this (w\<lparr>console := c\<rparr>) =
     (case getAscii offset this w of (r, t, w') \<Rightarrow> (r, t, w'\<lparr>console := c\<rparr>))"
  by (auto simp: getAscii_def andThen_def readByteFromFile_console
      split: prod.splits sum.splits option.splits)

lemma generateLine_loop_console:
  assumes "nat (LINE_WIDTH - pos) = n"
  shows "generateLine_loop spacing pos hexa ascii this (w\<lparr>console := c\<rparr>) =
           (case generateLine_loop spacing pos hexa ascii this w of
              (r, t, w') \<Rightarrow> (r, t, w'\<lparr>console := c\<rparr>))"
  using assms
proof (induction n arbitrary: pos hexa ascii this)
  case 0
  then have "\<not> pos < LINE_WIDTH" by simp
  then show ?case
    by (subst generateLine_loop.simps, subst (2) generateLine_loop.simps) simp
next
  case (Suc n)
  then have lt: "pos < LINE_WIDTH" and n: "nat (LINE_WIDTH - (pos + 1)) = n" by simp_all
  obtain r1 t1 w1 where h: "getByteHexa (currentOffset this + pos) this w = (r1, t1, w1)"
    by (metis prod_cases3)
  from getByteHexa_frame [OF h] have w1: "w1 = w" by simp
  obtain r2 t2 w2 where a: "getAscii (currentOffset t1 + pos) t1 w = (r2, t2, w2)"
    by (metis prod_cases3)
  from getAscii_frame [OF a] have w2: "w2 = w" by simp
  show ?case
  proof (cases r1)
    case (Inl e)
    with lt h w1 show ?thesis
      by (subst generateLine_loop.simps, subst (2) generateLine_loop.simps)
         (simp add: getByteHexa_console)
  next
    case r1: (Inr hx)
    show ?thesis
    proof (cases r2)
      case (Inl e)
      with lt h w1 a w2 r1 show ?thesis
        by (subst generateLine_loop.simps, subst (2) generateLine_loop.simps)
           (simp add: getByteHexa_console getAscii_console)
    next
      case (Inr ax)
      with lt h w1 a w2 r1 show ?thesis
        by (subst generateLine_loop.simps, subst (2) generateLine_loop.simps)
           (simp add: getByteHexa_console getAscii_console Let_def Suc.IH [OF n])
    qed
  qed
qed

lemma generateLine_console:
  "generateLine this (w\<lparr>console := c\<rparr>) =
     (case generateLine this w of (r, t, w') \<Rightarrow> (r, t, w'\<lparr>console := c\<rparr>))"
  by (simp add: generateLine_def andThen_def generateLine_loop_console [OF refl]
      split: prod.splits sum.splits)


lemma printLine_any_console:
  assumes "ready this w" and "fstat this = Some st"
  shows "\<exists>g t1.
           ready t1 w \<and> onlyWindow this t1 \<and>
           (\<forall>X. printLine this (w\<lparr>console := X\<rparr>) =
                  (Inr (currentLine this + 1 < maxLine this),
                   t1\<lparr>currentOffset := currentOffset this + LINE_WIDTH,
                        currentLine := currentLine this + 1\<rparr>,
                   w\<lparr>console := X @ [(if showOffset this then getOffset this @ ''   '' else []) @ g]\<rparr>))"
proof -
  from generateLine_ok [OF assms] obtain g t1 where
    g: "generateLine this w = (Inr g, t1, w)" and r: "ready t1 w"
    by blast
  from generateLine_frame [OF g] have ow: "onlyWindow this t1" by simp
  note f = onlyWindow_fields [OF ow]
  have "printLine this (w\<lparr>console := X\<rparr>) =
                  (Inr (currentLine this + 1 < maxLine this),
                   t1\<lparr>currentOffset := currentOffset this + LINE_WIDTH,
                        currentLine := currentLine this + 1\<rparr>,
                   w\<lparr>console := X @ [(if showOffset this then getOffset this @ ''   '' else []) @ g]\<rparr>)"
    for X
    using g by (simp add: printLine_def andThen_def Let_def generateLine_console f console_log_def)
  with r ow show ?thesis by blast
qed

lemma runImmediates_any_console:
  assumes "ready this w" and "fstat this = Some st"
    and "m = nat (maxLine this - currentLine this - 1)"
  shows "\<exists>tn ls. \<forall>X. runImmediates this (w\<lparr>console := X\<rparr>) = (Inr (), tn, w\<lparr>console := X @ ls\<rparr>)"
  using assms
proof (induction m arbitrary: this)
  case 0
  from printLine_any_console [OF "0.prems"(1,2)] obtain g t1 where
    p: "\<And>X. printLine this (w\<lparr>console := X\<rparr>) =
                  (Inr (currentLine this + 1 < maxLine this),
                   t1\<lparr>currentOffset := currentOffset this + LINE_WIDTH,
                        currentLine := currentLine this + 1\<rparr>,
                   w\<lparr>console := X @ [(if showOffset this then getOffset this @ ''   '' else []) @ g]\<rparr>)"
    by blast
  from "0.prems"(3) have "\<not> currentLine this + 1 < maxLine this" by simp
  then have "runImmediates this (w\<lparr>console := X\<rparr>) =
               (Inr (), t1\<lparr>currentOffset := currentOffset this + LINE_WIDTH,
                        currentLine := currentLine this + 1\<rparr>,
                w\<lparr>console := X @ [(if showOffset this then getOffset this @ ''   '' else []) @ g]\<rparr>)"
    for X
    by (subst runImmediates.simps) (simp add: p)
  then show ?case by blast
next
  case (Suc m)
  from printLine_any_console [OF Suc.prems(1,2)] obtain g t1 where
    r1: "ready t1 w" and ow: "onlyWindow this t1"
    and p: "\<And>X. printLine this (w\<lparr>console := X\<rparr>) =
                  (Inr (currentLine this + 1 < maxLine this),
                   t1\<lparr>currentOffset := currentOffset this + LINE_WIDTH,
                        currentLine := currentLine this + 1\<rparr>,
                   w\<lparr>console := X @ [(if showOffset this then getOffset this @ ''   '' else []) @ g]\<rparr>)"
    by blast
  define t2 where
    "t2 = t1\<lparr>currentOffset := currentOffset this + LINE_WIDTH, currentLine := currentLine this + 1\<rparr>"
  define line where "line = (if showOffset this then getOffset this @ ''   '' else []) @ g"
  note f = onlyWindow_fields [OF ow]
  from Suc.prems(3) have again: "currentLine this + 1 < maxLine this" by simp
  have r2: "ready t2 w" using r1 by (simp add: t2_def)
  have f2: "fstat t2 = Some st" using f Suc.prems(2) by (simp add: t2_def)
  have m: "m = nat (maxLine t2 - currentLine t2 - 1)"
    using Suc.prems(3) f by (simp add: t2_def)
  from Suc.IH [OF r2 f2 m] obtain tn ls where
    IH: "\<And>X. runImmediates t2 (w\<lparr>console := X\<rparr>) = (Inr (), tn, w\<lparr>console := X @ ls\<rparr>)"
    by blast
  have "runImmediates this (w\<lparr>console := X\<rparr>) = (Inr (), tn, w\<lparr>console := X @ (line # ls)\<rparr>)"
    for X
  proof -
    have "runImmediates this (w\<lparr>console := X\<rparr>) = runImmediates t2 (w\<lparr>console := X @ [line]\<rparr>)"
      using again by (subst runImmediates.simps) (simp add: p t2_def line_def)
    then show ?thesis by (simp add: IH)
  qed
  then show ?case by blast
qed

lemma dump_any_console:
  assumes "ready this w" and "fstat this = Some st"
  shows "\<exists>tn ls. \<forall>X. dump this (w\<lparr>console := X\<rparr>) = (Inr (), tn, w\<lparr>console := X @ ls\<rparr>)"
proof -
  define this1 where
    "this1 = this\<lparr>maxLine := \<lceil>(of_int (st_size st) :: rat) / of_int LINE_WIDTH\<rceil>, currentLine := 0\<rparr>"
  have r1: "ready this1 w" and f1: "fstat this1 = Some st"
    using assms by (simp_all add: this1_def)
  from runImmediates_any_console [OF r1 f1 refl] obtain tn ls where
    "\<And>X. runImmediates this1 (w\<lparr>console := X\<rparr>) = (Inr (), tn, w\<lparr>console := X @ ls\<rparr>)"
    by blast
  then have "dump this (w\<lparr>console := X\<rparr>) = (Inr (), tn, w\<lparr>console := X @ ls\<rparr>)" for X
    using dump_runImmediates [OF assms(2), of "w\<lparr>console := X\<rparr>"] by (simp add: this1_def)
  then show ?thesis by blast
qed


section \<open>A start offset beyond the file\<close>

lemma openFile_result:
  assumes f: "files w0 (path this0) = Some (RegularFile content)" and ne: "content \<noteq> []"
    and same: "bufferStart this0 = currentOffset this0" and nonneg: "0 \<le> currentOffset this0"
  shows "openFile this0 w0 =
           (Inr (),
            this0\<lparr>currentOffset := (if int (length content) \<le> currentOffset this0 then 0
                                      else currentOffset this0),
                   bufferStart := (if int (length content) \<le> currentOffset this0 then 0
                                   else currentOffset this0),
                   fstat := Some \<lparr>isDirectory = False, st_size = int (length content)\<rparr>,
                   fd := Some (nextFd w0),
                   buffer := Some (take (nat BUFFER_LENGTH)
                               (drop (nat (if int (length content) \<le> currentOffset this0 then 0
                                           else currentOffset this0)) content) @
                             drop (length (take (nat BUFFER_LENGTH)
                               (drop (nat (if int (length content) \<le> currentOffset this0 then 0
                                           else currentOffset this0)) content)))
                               (replicate (nat BUFFER_LENGTH) 0))\<rparr>,
            w0\<lparr>fds := (fds w0)(nextFd w0 \<mapsto> content), nextFd := Suc (nextFd w0),
                 console := console w0 @
                   (if int (length content) \<le> currentOffset this0 then [startWarning] else [])\<rparr>)"
proof -
  define start where
    "start = (if int (length content) \<le> currentOffset this0 then 0 else currentOffset this0)"
  define this2 where
    "this2 = this0\<lparr>currentOffset := start, bufferStart := start,
               fstat := Some \<lparr>isDirectory = False, st_size = int (length content)\<rparr>\<rparr>"
  define w2 where
    "w2 = w0\<lparr>console := console w0 @
                 (if int (length content) \<le> currentOffset this0 then [startWarning] else [])\<rparr>"
  have s1: "statFile this0 w0 =
              (Inr (), this0\<lparr>fstat := Some \<lparr>isDirectory = False, st_size = int (length content)\<rparr>\<rparr>, w0)"
    using f ne by (simp add: statFile_def statSync_def)
  have s2: "checkStartOffset
              (this0\<lparr>fstat := Some \<lparr>isDirectory = False, st_size = int (length content)\<rparr>\<rparr>) w0 =
              (Inr (), this2, w2)"
    using same
    by (cases this0, cases w0)
       (simp add: checkStartOffset_def this2_def w2_def start_def console_log_def startWarning_def)
  have s3: "openSync w2 (path this2) =
              (Inr (nextFd w0), w2\<lparr>fds := (fds w0)(nextFd w0 \<mapsto> content), nextFd := Suc (nextFd w0)\<rparr>)"
    using f by (simp add: openSync_def w2_def this2_def)
  define w3 where "w3 = w2\<lparr>fds := (fds w0)(nextFd w0 \<mapsto> content), nextFd := Suc (nextFd w0)\<rparr>"
  define this4 where
    "this4 = this2\<lparr>fd := Some (nextFd w0), buffer := Some (replicate (nat BUFFER_LENGTH) 0)\<rparr>"
  have s4: "openFile this0 w0 = readChunk start this4 w3"
    using s1 s2 s3 by (simp add: openFile_def andThen_def Let_def this4_def w3_def this2_def)
  have "0 \<le> start" using nonneg by (simp add: start_def)
  then have r: "readChunk start this4 w3 =
             (Inr (), this4\<lparr>buffer := Some (take (nat BUFFER_LENGTH) (drop (nat start) content) @
                                   drop (length (take (nat BUFFER_LENGTH) (drop (nat start) content)))
                                     (replicate (nat BUFFER_LENGTH) 0))\<rparr>, w3)"
    by (simp add: readChunk_def readSync_def this4_def w3_def BUFFER_LENGTH_def Let_def)
  show ?thesis
    unfolding s4 r unfolding this4_def this2_def w3_def w2_def start_def by simp
qed

text \<open>C7. For a file of size \<open>S > 0\<close> and a start offset on the command line that is at
  least \<open>S\<close>, \<^verbatim>\<open>openFile\<close> succeeds; it logs the warning, once, and leaves the current
  offset and the window start at 0. Apart from the warning on the console, the object
  and the world are those that \<^verbatim>\<open>openFile\<close> leaves for the start offset 0, and the dump
  that follows ends in the same object and appends the same lines as the dump for the
  start offset 0.\<close>

theorem start_offset_out_of_range:
  assumes "files w0 p = Some (RegularFile content)" and "content \<noteq> []"
    and "new_HexaFile p blockSizeArg startOffsetArg hexaArg offsetArg = Some this0"
    and "int (length content) \<le> currentOffset this0"
    and "new_HexaFile p blockSizeArg ''0'' hexaArg offsetArg = Some zero0"
  shows "\<exists>this w this' lines.
           openFile this0 w0 = (Inr (), this, w) \<and>
           console w = console w0 @ [startWarning] \<and>
           currentOffset this = 0 \<and> bufferStart this = 0 \<and>
           openFile zero0 w0 = (Inr (), this, w\<lparr>console := console w0\<rparr>) \<and>
           dump this w = (Inr (), this', w\<lparr>console := console w0 @ [startWarning] @ lines\<rparr>) \<and>
           dump this (w\<lparr>console := console w0\<rparr>) = (Inr (), this', w\<lparr>console := console w0 @ lines\<rparr>)"
proof -
  note n = new_HexaFile_start [OF assms(3)]
  note z = new_HexaFile_start [OF assms(5)]
  have p0: "parseInt ''0'' = Some 0" by (rule parseInt_samples(1))
  from z(3) p0 have zc: "currentOffset zero0 = 0" by simp
  from assms(3,5) p0 have zero0: "zero0 = this0\<lparr>currentOffset := 0, bufferStart := 0\<rparr>"
    by (auto simp: new_HexaFile_def split: option.splits)
  have len: "0 < int (length content)" using assms(2) by simp
  with assms(4) have nonneg: "0 \<le> currentOffset this0" by simp
  define this where
    "this = this0\<lparr>currentOffset := 0, bufferStart := 0,
               fstat := Some \<lparr>isDirectory = False, st_size = int (length content)\<rparr>,
               fd := Some (nextFd w0),
               buffer := Some (take (nat BUFFER_LENGTH) (drop (nat 0) content) @
                           drop (length (take (nat BUFFER_LENGTH) (drop (nat 0) content)))
                             (replicate (nat BUFFER_LENGTH) 0))\<rparr>"
  define w where
    "w = w0\<lparr>fds := (fds w0)(nextFd w0 \<mapsto> content), nextFd := Suc (nextFd w0),
              console := console w0 @ [startWarning]\<rparr>"
  have o1: "openFile this0 w0 = (Inr (), this, w)"
    using openFile_result [OF _ assms(2) n(1) nonneg, of w0] assms(1,4) n(2)
    by (simp add: this_def w_def)
  have o2: "openFile zero0 w0 = (Inr (), this, w\<lparr>console := console w0\<rparr>)"
    using openFile_result [OF _ assms(2) z(1), of w0] assms(1) z(2) zc len
    by (simp add: this_def w_def zero0)
  from openFile_ready(1) [OF o1 n(1)] have rdy: "ready this w" .
  have fs: "fstat this = Some \<lparr>isDirectory = False, st_size = int (length content)\<rparr>"
    by (simp add: this_def)
  from dump_any_console [OF rdy fs] obtain this' lines where
    d: "\<And>X. dump this (w\<lparr>console := X\<rparr>) = (Inr (), this', w\<lparr>console := X @ lines\<rparr>)"
    by blast
  have cw: "console w = console w0 @ [startWarning]" by (simp add: w_def)
  have "w\<lparr>console := console w0 @ [startWarning]\<rparr> = w" by (simp add: w_def)
  with d [of "console w0 @ [startWarning]"]
  have d1: "dump this w = (Inr (), this', w\<lparr>console := console w0 @ [startWarning] @ lines\<rparr>)"
    by simp
  have "currentOffset this = 0" "bufferStart this = 0" by (simp_all add: this_def)
  with o1 o2 cw d1 d [of "console w0"] show ?thesis by blast
qed


theorem start_offset_out_of_range_witness:
  "files sampleWorld ''f'' = Some (RegularFile sampleBytes) \<and> sampleBytes \<noteq> [] \<and>
   new_HexaFile ''f'' ''32'' ''100'' True True =
     Some ((sampleSession 100)\<lparr>buffer := None, fstat := None, fd := None\<rparr>) \<and>
   int (length sampleBytes) \<le>
     currentOffset ((sampleSession 100)\<lparr>buffer := None, fstat := None, fd := None\<rparr>) \<and>
   new_HexaFile ''f'' ''32'' ''0'' True True =
     Some ((sampleSession 0)\<lparr>buffer := None, fstat := None, fd := None\<rparr>) \<and>
   (\<exists>this w this' lines.
      openFile ((sampleSession 100)\<lparr>buffer := None, fstat := None, fd := None\<rparr>) sampleWorld =
        (Inr (), this, w) \<and>
      console w = console sampleWorld @ [startWarning] \<and>
      currentOffset this = 0 \<and> bufferStart this = 0 \<and>
      openFile ((sampleSession 0)\<lparr>buffer := None, fstat := None, fd := None\<rparr>) sampleWorld =
        (Inr (), this, w\<lparr>console := console sampleWorld\<rparr>) \<and>
      dump this w =
        (Inr (), this', w\<lparr>console := console sampleWorld @ [startWarning] @ lines\<rparr>) \<and>
      dump this (w\<lparr>console := console sampleWorld\<rparr>) =
        (Inr (), this', w\<lparr>console := console sampleWorld @ lines\<rparr>))"
proof -
  have f: "files sampleWorld ''f'' = Some (RegularFile sampleBytes)"
    by (simp add: sampleWorld_def)
  have ne: "sampleBytes \<noteq> []" by (simp add: sampleBytes_def)
  have n100: "new_HexaFile ''f'' ''32'' ''100'' True True =
     Some ((sampleSession 100)\<lparr>buffer := None, fstat := None, fd := None\<rparr>)"
    by (simp add: new_HexaFile_def parseInt_samples sampleSession_def)
  have n0: "new_HexaFile ''f'' ''32'' ''0'' True True =
     Some ((sampleSession 0)\<lparr>buffer := None, fstat := None, fd := None\<rparr>)"
    by (simp add: new_HexaFile_def parseInt_samples sampleSession_def)
  have big: "int (length sampleBytes) \<le>
     currentOffset ((sampleSession 100)\<lparr>buffer := None, fstat := None, fd := None\<rparr>)"
    by (simp add: sampleSession_def sampleBytes_def)
  from start_offset_out_of_range [OF f ne n100 big n0] f ne n100 big n0
  show ?thesis by simp
qed

section \<open>Closing the file\<close>

text \<open>The first call of \<^verbatim>\<open>cleanup\<close>. It does nothing and raises nothing when no descriptor
  was ever stored; when the stored descriptor is open and is not 0, it closes that
  descriptor, raises nothing and leaves the object, the stored descriptor included, as
  it was. After \<^verbatim>\<open>openFile\<close> on a constructed object, whether it succeeded or threw,
  \<^verbatim>\<open>cleanup\<close> raises nothing.\<close>

lemma cleanup_first_call:
  "(fd this = None \<longrightarrow> cleanup this w = (Inr (), this, w)) \<and>
   (\<forall>h content. fd this = Some h \<and> h \<noteq> 0 \<and> fds w h = Some content \<longrightarrow>
      cleanup this w = (Inr (), this, w\<lparr>fds := (fds w)(h := None)\<rparr>)) \<and>
   (\<forall>p blockSizeArg startOffsetArg hexaArg offsetArg this0 w0 r.
      new_HexaFile p blockSizeArg startOffsetArg hexaArg offsetArg = Some this0 \<and>
      openFile this0 w0 = (r, this, w) \<longrightarrow>
      (\<exists>w'. cleanup this w = (Inr (), this, w')))"
proof (intro conjI allI impI)
  show "cleanup this w = (Inr (), this, w)" if "fd this = None"
    using that by (simp add: cleanup_def)
  show "cleanup this w = (Inr (), this, w\<lparr>fds := (fds w)(h := None)\<rparr>)"
    if "fd this = Some h \<and> h \<noteq> 0 \<and> fds w h = Some content" for h content
    using that by (simp add: cleanup_def closeSync_def)
  show "\<exists>w'. cleanup this w = (Inr (), this, w')"
    if a: "new_HexaFile p blockSizeArg startOffsetArg hexaArg offsetArg = Some this0 \<and>
        openFile this0 w0 = (r, this, w)"
    for p blockSizeArg startOffsetArg hexaArg offsetArg this0 w0 r
  proof -
    from a have fd0: "fd this0 = None"
      by (auto simp: new_HexaFile_def split: option.splits)
    from a have o: "openFile this0 w0 = (r, this, w)" by simp
    have "fd this = None \<or> (\<exists>h. fd this = Some h \<and> fds w h \<noteq> None)"
      using o fd0
      by (auto simp: openFile_def andThen_def statFile_def checkStartOffset_def openSync_def
          readChunk_def readSync_def console_log_def Let_def
          split: sum.splits option.splits node.splits if_splits prod.splits)
    then show ?thesis
      by (auto simp: cleanup_def closeSync_def)
  qed
qed


lemma cleanup_first_call_sample:
  "fd ((sampleSession 0)\<lparr>buffer := None, fstat := None, fd := None\<rparr>) = None \<and>
   cleanup ((sampleSession 0)\<lparr>buffer := None, fstat := None, fd := None\<rparr>) sampleWorld =
     (Inr (), (sampleSession 0)\<lparr>buffer := None, fstat := None, fd := None\<rparr>, sampleWorld) \<and>
   fd (sampleSession 0) = Some 3 \<and> (3::nat) \<noteq> 0 \<and> fds sampleOpenWorld 3 = Some sampleBytes \<and>
   cleanup (sampleSession 0) sampleOpenWorld =
     (Inr (), sampleSession 0, sampleOpenWorld\<lparr>fds := (fds sampleOpenWorld)(3 := None)\<rparr>)"
proof -
  have a: "fd ((sampleSession 0)\<lparr>buffer := None, fstat := None, fd := None\<rparr>) = None"
    by simp
  have b: "fd (sampleSession 0) = Some 3 \<and> (3::nat) \<noteq> 0 \<and> fds sampleOpenWorld 3 = Some sampleBytes"
    by (simp add: sampleSession_def sampleOpenWorld_def)
  note c1 = cleanup_first_call [THEN conjunct1, rule_format, OF a]
  note c2 = cleanup_first_call [THEN conjunct2, THEN conjunct1, rule_format, OF b]
  from a b c1 [of sampleWorld] c2 show ?thesis by simp
qed

text \<open>\<^verbatim>\<open>cleanup\<close> tests \<open>fd\<close> to know whether the file is open, and never clears it. A
  descriptor that was stored stays stored once closed, so every later call closes it
  again and \<^verbatim>\<open>fs.closeSync\<close> throws, whatever the descriptor.\<close>

lemma cleanup_again_throws:
  assumes "fd this = Some h" and "h \<noteq> 0" and "fds w h = Some content"
    and "cleanup this w = (r, this', w')"
  shows "r = Inr () \<and> this' = this \<and> fds w' h = None \<and>
         cleanup this' w' = (Inl EBADF, this', w')"
  using assms by (auto simp: cleanup_def closeSync_def)

text \<open>The test is \<^verbatim>\<open>if (this.fd)\<close>, which is false of the descriptor 0: a file opened
  as descriptor 0 is left open.\<close>

lemma cleanup_keeps_descriptor_0:
  assumes "fd this = Some 0"
  shows "cleanup this w = (Inr (), this, w)"
  using assms by (simp add: cleanup_def)



section \<open>Validation of the command line\<close>

lemma validateParams_constructs:
  assumes "validateParams prog w = (True, w')"
  shows "\<exists>hexa. new_HexaFile p (opt_blockSize prog) (opt_startOffset prog) hexaArg offsetArg =
                  Some hexa \<and> 0 \<le> currentOffset hexa \<and> w' = w"
  using assms
  by (auto simp: validateParams_def new_HexaFile_def split: if_splits option.splits)

lemma validateParams_rejects:
  assumes "\<not> matchAlternatives [''8'', ''16'', ''32'', ''64''] (opt_blockSize prog) \<or>
           parseInt (opt_startOffset prog) = None \<or>
           (\<exists>n. parseInt (opt_startOffset prog) = Some n \<and> n < 0)"
  shows "fst (validateParams prog w) = False" and "fst (main prog w) = Help"
    and "fds (snd (main prog w)) = fds w"
proof -
  show v: "fst (validateParams prog w) = False"
    using assms by (auto simp: validateParams_def)
  then show "fst (main prog w) = Help"
    by (cases "validateParams prog w") (auto simp: main_def split: list.splits)
  from v show "fds (snd (main prog w)) = fds w"
    by (cases "validateParams prog w")
       (auto simp: main_def validateParams_def console_log_def split: list.splits if_splits)
qed

lemma main_after_open:
  assumes "args prog = p # rest" and "validateParams prog w = (True, w)"
    and "new_HexaFile p (opt_blockSize prog) (opt_startOffset prog) (opt_hexa prog) (opt_offset prog) =
           Some hexa"
    and "openFile hexa w = (Inr (), this, w2)"
    and "dump this w2 = (Inr (), this', w3)"
  shows "main prog w = (Completed, w3)"
  using assms
  by (auto simp: main_def dump_def andThen_def split: prod.splits sum.splits if_splits)

text \<open>C9 at the block size \<open>128\<close>, which is none of 8, 16, 32 and 64: the unanchored
  test \<^verbatim>\<open>/8|16|32|64/\<close> finds the 8 in it, \<^verbatim>\<open>validateParams\<close> returns true, and
  the program opens the file and dumps it instead of printing the usage text.\<close>

theorem block_size_128_is_accepted:
  "validateParams
     \<lparr>args = [''f''], opt_blockSize = ''128'', opt_startOffset = ''0'',
      opt_hexa = True, opt_offset = True\<rparr> sampleWorld = (True, sampleWorld) \<and>
   (\<exists>w'. main
      \<lparr>args = [''f''], opt_blockSize = ''128'', opt_startOffset = ''0'',
       opt_hexa = True, opt_offset = True\<rparr> sampleWorld = (Completed, w') \<and>
      fds w' 3 = Some sampleBytes \<and> length (console w') = 2)"
proof -
  define prog where
    "prog = \<lparr>args = [''f''], opt_blockSize = ''128'', opt_startOffset = ''0'',
             opt_hexa = True, opt_offset = True\<rparr>"
  define this where "this = (sampleSession 0)\<lparr>blockSize := Some 128\<rparr>"
  have v: "validateParams prog sampleWorld = (True, sampleWorld)"
    by (simp add: validateParams_def prog_def matchAlternatives_def parseInt_samples)
  have p128: "parseInt ''128'' = Some 128"
    by (simp add: parseInt_def isWhiteSpace_def isDigitOf_def digitValue_def digitsValue_def
        toDouble_exact Let_def)
  have n: "new_HexaFile ''f'' (opt_blockSize prog) (opt_startOffset prog) (opt_hexa prog)
             (opt_offset prog) = Some (this\<lparr>buffer := None, fstat := None, fd := None\<rparr>)"
    by (simp add: new_HexaFile_def prog_def parseInt_samples p128 this_def sampleSession_def)
  have o: "openFile (this\<lparr>buffer := None, fstat := None, fd := None\<rparr>) sampleWorld =
             (Inr (), this, sampleOpenWorld)"
    by (simp add: openFile_def statFile_def statSync_def checkStartOffset_def openSync_def
      readChunk_def readSync_def andThen_def sampleSession_def sampleWorld_def sampleOpenWorld_def
      sampleBytes_def BUFFER_LENGTH_def Let_def this_def)
  have r: "ready this sampleOpenWorld"
    by (simp add: ready_def this_def sampleSession_def sampleOpenWorld_def sampleWorld_def
        sampleBytes_def BUFFER_LENGTH_def)
  have f: "fstat this = Some \<lparr>isDirectory = False, st_size = 26\<rparr>"
    by (simp add: this_def sampleSession_def)
  have c: "console sampleOpenWorld = []"
    by (simp add: sampleOpenWorld_def sampleWorld_def)
  from dump_any_console [OF r f] obtain tn ls where
    "\<And>X. dump this (sampleOpenWorld\<lparr>console := X\<rparr>) =
            (Inr (), tn, sampleOpenWorld\<lparr>console := X @ ls\<rparr>)"
    by blast
  from this [of "[]"] c have d: "dump this sampleOpenWorld = (Inr (), tn, sampleOpenWorld\<lparr>console := ls\<rparr>)"
    by (simp add: sampleOpenWorld_def sampleWorld_def)
  have pos: "0 < st_size \<lparr>isDirectory = False, st_size = 26\<rparr>" by simp
  from dump_lines [OF r f pos] d c have "int (length ls) = \<lceil>(26::rat) / 24\<rceil>"
    by auto
  moreover have "\<lceil>(26::rat) / 24\<rceil> = 2"
    by (rule ceiling_unique) simp_all
  ultimately have l: "length ls = 2" by simp
  have a: "args prog = ''f'' # []" by (simp add: prog_def)
  from main_after_open [OF a v n o d]
  have "main prog sampleWorld = (Completed, sampleOpenWorld\<lparr>console := ls\<rparr>)" .
  moreover have "fds (sampleOpenWorld\<lparr>console := ls\<rparr>) 3 = Some sampleBytes"
    by (simp add: sampleOpenWorld_def)
  ultimately have "\<exists>w'. main prog sampleWorld = (Completed, w') \<and>
      fds w' 3 = Some sampleBytes \<and> length (console w') = 2"
    using l by simp
  with v show ?thesis unfolding prog_def by simp
qed

end
